theory Spec2Isabelle
  imports Complex_Main "HOL-Library.Log_Nat"
begin

section \<open>Python values and errors\<close>

text \<open>
  The widget \<^verbatim>\<open>CellsGrid\<close> of \<^verbatim>\<open>cells_grid.py\<close> inspects its arguments at run time
  (\<^verbatim>\<open>isinstance\<close>, \<^verbatim>\<open>len\<close>), so the arguments are modelled as dynamically typed
  values. A finite Python \<^verbatim>\<open>float\<close> is modelled as the rational it denotes, and the
  arithmetic that yields a float rounds to binary64, as defined below. \<^verbatim>\<open>bool\<close> is
  kept apart from \<^verbatim>\<open>int\<close> because it is a subclass of it: \<^verbatim>\<open>isinstance(True, int)\<close>
  holds.
\<close>

datatype pyval =
    PNone
  | PBool bool
  | PInt int
  | PFloat rat
  | PStr string
  | PTuple "pyval list"
  | PList "pyval list"

text \<open>\<^verbatim>\<open>type(value).__name__\<close>\<close>

fun type_name :: "pyval \<Rightarrow> string" where
  "type_name PNone = ''NoneType''"
| "type_name (PBool _) = ''bool''"
| "type_name (PInt _) = ''int''"
| "type_name (PFloat _) = ''float''"
| "type_name (PStr _) = ''str''"
| "type_name (PTuple _) = ''tuple''"
| "type_name (PList _) = ''list''"

text \<open>\<^verbatim>\<open>isinstance(value, int)\<close>\<close>

fun isinstance_int :: "pyval \<Rightarrow> bool" where
  "isinstance_int (PInt _) = True"
| "isinstance_int (PBool _) = True"
| "isinstance_int _ = False"

text \<open>\<^verbatim>\<open>isinstance(value, (tuple, list))\<close>\<close>

fun isinstance_tuple_list :: "pyval \<Rightarrow> bool" where
  "isinstance_tuple_list (PTuple _) = True"
| "isinstance_tuple_list (PList _) = True"
| "isinstance_tuple_list _ = False"

text \<open>\<^verbatim>\<open>isinstance(v, (int, float))\<close>\<close>

fun isinstance_int_float :: "pyval \<Rightarrow> bool" where
  "isinstance_int_float (PInt _) = True"
| "isinstance_int_float (PBool _) = True"
| "isinstance_int_float (PFloat _) = True"
| "isinstance_int_float _ = False"

text \<open>The items of a tuple or a list, in order.\<close>

fun seq_items :: "pyval \<Rightarrow> pyval list" where
  "seq_items (PTuple xs) = xs"
| "seq_items (PList xs) = xs"
| "seq_items _ = []"


text \<open>
  An error message is a list of fragments: literal text, and values that the source
  interpolates with \<^verbatim>\<open>str()\<close> (the rendering of a value is not modelled). Messages
  of the errors the source raises itself are the source's; messages of errors raised by
  the interpreter are abbreviated.
\<close>

datatype frag = Text string | Shown pyval

type_synonym msg = "frag list"

datatype py_error =
    TypeError msg
  | ValueError msg
  | IndexError msg
  | AttributeError msg
  | OverflowError msg

section \<open>Float arithmetic\<close>

text \<open>
  A binary64 float has 53 significant bits; its exponent goes down to \<open>-1022\<close>, below
  which the floats are the multiples of \<open>2 powi (-1074)\<close>. An operation that yields a
  float rounds its exact result to the nearest float, a tie going to the float with an
  even significand. Infinities, NaN and the sign of zero are outside the model; none of
  the operations the source applies gives an infinity or a NaN on finite numbers.
\<close>

text \<open>The exponent of the power of two at or below a positive rational.\<close>

definition floor_log2 :: "rat \<Rightarrow> int" where
  "floor_log2 x =
     (case quotient_of x of (p, q) \<Rightarrow>
        (if 2 powi (bitlen p - bitlen q) \<le> x then bitlen p - bitlen q
         else bitlen p - bitlen q - 1))"

text \<open>The gap between neighbouring floats at the magnitude of \<open>x\<close>.\<close>

definition ulp :: "rat \<Rightarrow> rat" where
  "ulp x = 2 powi (max (floor_log2 \<bar>x\<bar>) (- 1022) - 52)"

text \<open>The nearest integer, a tie going to the even one.\<close>

definition round_even :: "rat \<Rightarrow> int" where
  "round_even q =
     (if q - of_int \<lfloor>q\<rfloor> < 1 / 2 then \<lfloor>q\<rfloor>
      else if 1 / 2 < q - of_int \<lfloor>q\<rfloor> then \<lfloor>q\<rfloor> + 1
      else if even \<lfloor>q\<rfloor> then \<lfloor>q\<rfloor> else \<lfloor>q\<rfloor> + 1)"

text \<open>Rounding to binary64, the exponent not bounded above.\<close>

definition double_round :: "rat \<Rightarrow> rat" where
  "double_round x = (if x = 0 then 0 else of_int (round_even (x / ulp x)) * ulp x)"


text \<open>The magnitude is \<open>2 ^ 1024\<close> or more: beyond the largest float.\<close>

definition exceeds_double :: "rat \<Rightarrow> bool" where
  "exceeds_double y = (y \<noteq> 0 \<and> 1024 \<le> floor_log2 \<bar>y\<bar>)"

section \<open>The spacing normalizers\<close>

type_synonym box4 = "pyval \<times> pyval \<times> pyval \<times> pyval"
type_synonym half4 = "rat \<times> rat \<times> rat \<times> rat"

text \<open>The three messages of the normalizers, for the parameter \<open>name\<close>.\<close>

definition type_msg :: "string \<Rightarrow> pyval \<Rightarrow> msg" where
  "type_msg name v =
     [Text (''`'' @ name @ ''` must be int, tuple, or list, but received '' @
            type_name v @ ''.'')]"

definition element_msg :: "string \<Rightarrow> pyval \<Rightarrow> msg" where
  "element_msg name seq =
     [Text (''All values in `'' @ name @ ''` must be int or float. Received: ''), Shown seq]"

definition length_msg :: "string \<Rightarrow> msg" where
  "length_msg name =
     [Text (''`'' @ name @ ''` must contain 2 or 4 values. '' @
            ''Valid examples: 10, (10, 20), (10, 5, 10, 5).'')]"

text \<open>\<^verbatim>\<open>__ensure_numeric_sequence(seq, name)\<close>\<close>

definition ensure_numeric_sequence :: "pyval \<Rightarrow> string \<Rightarrow> py_error + unit" where
  "ensure_numeric_sequence seq name =
     (if \<not> list_all isinstance_int_float (seq_items seq)
      then Inl (TypeError (element_msg name seq))
      else Inr ())"

text \<open>
  \<^verbatim>\<open>n / 2\<close> for an int \<open>n\<close>: the quotient rounded to a float, \<^verbatim>\<open>OverflowError\<close> when
  the rounded quotient is beyond the largest float.
\<close>

definition int_true_div_2 :: "int \<Rightarrow> py_error + rat" where
  "int_true_div_2 n =
     (if exceeds_double (double_round (of_int n / 2))
      then Inl (OverflowError [Text ''integer division result too large for a float''])
      else Inr (double_round (of_int n / 2)))"

text \<open>
  \<^verbatim>\<open>v / 2\<close>: true division, always a float. A bool divides as the int it is; a float
  divided by 2 cannot overflow; a non-number gives a type error.
\<close>

fun true_div_2 :: "pyval \<Rightarrow> py_error + rat" where
  "true_div_2 (PInt i) = int_true_div_2 i"
| "true_div_2 (PBool b) = int_true_div_2 (of_bool b)"
| "true_div_2 (PFloat x) = Inr (double_round (x / 2))"
| "true_div_2 v =
     Inl (TypeError [Text (''unsupported operand type(s) for /: '' @ type_name v @ '' and int'')])"

text \<open>The tuple \<^verbatim>\<open>(a / 2, b / 2, c / 2, d / 2)\<close>, evaluated left to right.\<close>

definition halved_tuple :: "pyval \<Rightarrow> pyval \<Rightarrow> pyval \<Rightarrow> pyval \<Rightarrow> py_error + half4" where
  "halved_tuple a b c d =
     (case true_div_2 a of Inl e \<Rightarrow> Inl e | Inr a' \<Rightarrow>
     (case true_div_2 b of Inl e \<Rightarrow> Inl e | Inr b' \<Rightarrow>
     (case true_div_2 c of Inl e \<Rightarrow> Inl e | Inr c' \<Rightarrow>
     (case true_div_2 d of Inl e \<Rightarrow> Inl e | Inr d' \<Rightarrow>
        Inr (a', b', c', d')))))"

text \<open>
  \<^verbatim>\<open>__normalize_cell_spacing(value)\<close>: its messages are those above with the name
  \<^verbatim>\<open>cells_spacing\<close> written out.
\<close>

definition normalize_cell_spacing :: "pyval \<Rightarrow> py_error + half4" where
  "normalize_cell_spacing v =
     (if \<not> (isinstance_int v \<or> isinstance_tuple_list v)
      then Inl (TypeError (type_msg ''cells_spacing'' v))
      else if isinstance_int v
      then halved_tuple v v v v
      else if length (seq_items v) = 2
      then (case ensure_numeric_sequence v ''cells_spacing'' of
              Inl e \<Rightarrow> Inl e
            | Inr _ \<Rightarrow> halved_tuple (seq_items v ! 0) (seq_items v ! 1)
                                    (seq_items v ! 0) (seq_items v ! 1))
      else if length (seq_items v) = 4
      then (case ensure_numeric_sequence v ''cells_spacing'' of
              Inl e \<Rightarrow> Inl e
            | Inr _ \<Rightarrow> halved_tuple (seq_items v ! 0) (seq_items v ! 1)
                                    (seq_items v ! 2) (seq_items v ! 3))
      else Inl (ValueError (length_msg ''cells_spacing'')))"

text \<open>\<^verbatim>\<open>__normalize_box_spacing(value, name)\<close>\<close>

definition normalize_box_spacing :: "pyval \<Rightarrow> string \<Rightarrow> py_error + box4" where
  "normalize_box_spacing v name =
     (if \<not> (isinstance_int v \<or> isinstance_tuple_list v)
      then Inl (TypeError (type_msg name v))
      else if isinstance_int v
      then Inr (v, v, v, v)
      else if length (seq_items v) = 2
      then (case ensure_numeric_sequence v name of
              Inl e \<Rightarrow> Inl e
            | Inr _ \<Rightarrow> Inr (seq_items v ! 0, seq_items v ! 1,
                           seq_items v ! 0, seq_items v ! 1))
      else if length (seq_items v) = 4
      then (case ensure_numeric_sequence v name of
              Inl e \<Rightarrow> Inl e
            | Inr _ \<Rightarrow> Inr (seq_items v ! 0, seq_items v ! 1,
                           seq_items v ! 2, seq_items v ! 3))
      else Inl (ValueError (length_msg name)))"

section \<open>The toolkit: cell widgets\<close>

text \<open>
  The GUI toolkit is outside the repository. What the source does to it is recorded in a
  store of the cell frames it has created and in a log of the creations and destructions,
  in the order of the calls. A cell's handle is its index in the store, so a new cell has
  a handle no earlier cell has. The keyword arguments of \<^verbatim>\<open>ctk.CTkFrame(...)\<close> and of
  \<^verbatim>\<open>cell.grid(...)\<close> are kept as the source passes them; the toolkit's own checks of
  them are not modelled.
\<close>

record widget =
  w_border_color :: pyval
  w_border_width :: pyval
  w_corner_radius :: pyval
  w_fg_color :: pyval
  w_height :: pyval
  w_width :: pyval
  w_row :: nat
  w_column :: nat
  w_padx :: "rat \<times> rat"
  w_pady :: "rat \<times> rat"
  w_destroyed :: bool

datatype tk_event = Created nat | Destroyed nat

section \<open>The grid container\<close>

text \<open>
  The attributes of a \<^verbatim>\<open>CellsGrid\<close> instance, with the toolkit's store and log.
  \<^verbatim>\<open>grid_shape\<close> does not exist before the first \<^verbatim>\<open>load_cells\<close> (\<open>None\<close>). The
  other attributes that \<^verbatim>\<open>load_cells\<close> sets are read by the source only after it has
  written them in the same call, so the values they have here before the first call are
  never observed.
\<close>

record grid =
  outer_margin :: box4
  inner_padding :: box4
  container_padx :: "pyval \<times> pyval"
  container_pady :: "pyval \<times> pyval"
  cells_matrix :: "nat list list"
  grid_shape :: "pyval list option"
  cell_border_color :: pyval
  cell_border_width :: pyval
  cell_corner_radius :: pyval
  cell_fg_color :: pyval
  cell_height :: pyval
  cell_width :: pyval
  cell_spacing :: half4
  last_row_index :: pyval
  last_column_index :: pyval
  widgets :: "widget list"
  trace :: "tk_event list"

text \<open>
  The instance \<^verbatim>\<open>__init__\<close> leaves, for a normalized margin and padding: the
  container frame is placed with the padding, and the matrix is empty.
\<close>

definition initial_grid :: "box4 \<Rightarrow> box4 \<Rightarrow> grid" where
  "initial_grid om ip =
     (case ip of (pl, pt, pr, pb) \<Rightarrow>
        \<lparr>outer_margin = om,
         inner_padding = ip,
         container_padx = (pl, pr),
         container_pady = (pt, pb),
         cells_matrix = [],
         grid_shape = None,
         cell_border_color = PNone,
         cell_border_width = PNone,
         cell_corner_radius = PNone,
         cell_fg_color = PNone,
         cell_height = PNone,
         cell_width = PNone,
         cell_spacing = (0, 0, 0, 0),
         last_row_index = PNone,
         last_column_index = PNone,
         widgets = [],
         trace = []\<rparr>)"

text \<open>\<^verbatim>\<open>__init__(master, ..., margin, padding, ...)\<close>: fails when a spacing is invalid.\<close>

definition cells_grid_init :: "pyval \<Rightarrow> pyval \<Rightarrow> py_error + grid" where
  "cells_grid_init margin padding =
     (case normalize_box_spacing margin ''margin'' of
        Inl e \<Rightarrow> Inl e
      | Inr om \<Rightarrow>
     (case normalize_box_spacing padding ''padding'' of
        Inl e \<Rightarrow> Inl e
      | Inr ip \<Rightarrow> Inr (initial_grid om ip)))"

text \<open>\<^verbatim>\<open>get_cells_grid()\<close>\<close>

definition get_cells_grid :: "grid \<Rightarrow> nat list list" where
  "get_cells_grid s = cells_matrix s"

subsection \<open>Interpreter operations the methods use\<close>

text \<open>\<^verbatim>\<open>xs[i]\<close> for an index \<open>i \<ge> 0\<close>.\<close>

definition list_item :: "string \<Rightarrow> 'a list \<Rightarrow> nat \<Rightarrow> py_error + 'a" where
  "list_item kind xs i =
     (if i < length xs then Inr (xs ! i)
      else Inl (IndexError [Text (kind @ '' index out of range'')]))"

text \<open>\<^verbatim>\<open>self.grid_shape[i]\<close>\<close>

definition shape_item :: "grid \<Rightarrow> nat \<Rightarrow> py_error + pyval" where
  "shape_item s i =
     (case grid_shape s of
        None \<Rightarrow> Inl (AttributeError [Text ''CellsGrid object has no attribute grid_shape''])
      | Some gs \<Rightarrow> list_item ''tuple'' gs i)"

text \<open>
  \<^verbatim>\<open>range(n)\<close>: the number of iterations, the loop variable running through
  \<open>[0..<count]\<close>; a type error when \<open>n\<close> is not an integer.
\<close>

fun py_range :: "pyval \<Rightarrow> py_error + nat" where
  "py_range (PInt n) = Inr (nat n)"
| "py_range (PBool b) = Inr (of_bool b)"
| "py_range v =
     Inl (TypeError [Text (type_name v @ '' object cannot be interpreted as an integer'')])"

text \<open>\<^verbatim>\<open>x - 1\<close>: exact on an int, rounded on a float.\<close>

fun py_sub_1 :: "pyval \<Rightarrow> py_error + pyval" where
  "py_sub_1 (PInt n) = Inr (PInt (n - 1))"
| "py_sub_1 (PBool b) = Inr (PInt (of_bool b - 1))"
| "py_sub_1 (PFloat x) = Inr (PFloat (double_round (x - 1)))"
| "py_sub_1 v =
     Inl (TypeError [Text (''unsupported operand type(s) for -: '' @ type_name v @ '' and int'')])"

text \<open>\<^verbatim>\<open>i != x\<close> for a loop index \<open>i\<close>.\<close>

fun index_ne :: "nat \<Rightarrow> pyval \<Rightarrow> bool" where
  "index_ne i (PInt k) = (int i \<noteq> k)"
| "index_ne i (PBool b) = (int i \<noteq> of_bool b)"
| "index_ne i (PFloat x) = (of_nat i \<noteq> x)"
| "index_ne i _ = True"

text \<open>Sequencing of two statements, the first of which may raise.\<close>

definition and_then ::
  "py_error option \<times> grid \<Rightarrow> (grid \<Rightarrow> py_error option \<times> grid) \<Rightarrow> py_error option \<times> grid" where
  "and_then r f = (case r of (None, s) \<Rightarrow> f s | (Some e, s) \<Rightarrow> (Some e, s))"

subsection \<open>Destroying the cells\<close>

text \<open>\<^verbatim>\<open>widget.destroy()\<close>\<close>

definition destroy_widget :: "nat \<Rightarrow> grid \<Rightarrow> grid" where
  "destroy_widget h s =
     s\<lparr>widgets := (widgets s)[h := (widgets s ! h)\<lparr>w_destroyed := True\<rparr>],
       trace := trace s @ [Destroyed h]\<rparr>"

text \<open>The inner loop of \<^verbatim>\<open>__destroy_all_cells\<close>, over the columns of one row.\<close>

fun destroy_cols :: "nat \<Rightarrow> nat list \<Rightarrow> grid \<Rightarrow> py_error option \<times> grid" where
  "destroy_cols row [] s = (None, s)"
| "destroy_cols row (col # cols) s =
     (case list_item ''list'' (cells_matrix s) row of
        Inl e \<Rightarrow> (Some e, s)
      | Inr cells \<Rightarrow>
     (case list_item ''list'' cells col of
        Inl e \<Rightarrow> (Some e, s)
      | Inr h \<Rightarrow> destroy_cols row cols (destroy_widget h s)))"

text \<open>The outer loop: \<^verbatim>\<open>range(self.grid_shape[1])\<close> is evaluated in every row.\<close>

fun destroy_rows :: "nat list \<Rightarrow> grid \<Rightarrow> py_error option \<times> grid" where
  "destroy_rows [] s = (None, s)"
| "destroy_rows (row # rows) s =
     (case shape_item s 1 of
        Inl e \<Rightarrow> (Some e, s)
      | Inr e1 \<Rightarrow>
     (case py_range e1 of
        Inl e \<Rightarrow> (Some e, s)
      | Inr m \<Rightarrow> and_then (destroy_cols row [0..<m] s) (destroy_rows rows)))"

text \<open>\<^verbatim>\<open>__destroy_all_cells()\<close>: an empty list is false.\<close>

definition destroy_all_cells :: "grid \<Rightarrow> py_error option \<times> grid" where
  "destroy_all_cells s =
     (if cells_matrix s \<noteq> []
      then (case shape_item s 0 of
              Inl e \<Rightarrow> (Some e, s)
            | Inr e0 \<Rightarrow>
           (case py_range e0 of
              Inl e \<Rightarrow> (Some e, s)
            | Inr n \<Rightarrow> destroy_rows [0..<n] s))
      else (None, s))"

subsection \<open>Loading the cells\<close>

text \<open>The arguments of \<^verbatim>\<open>load_cells\<close>.\<close>

record load_args =
  array :: pyval
  cells_border_color :: pyval
  cells_border_width :: pyval
  cells_corner_radius :: pyval
  cells_fg_color :: pyval
  cells_height :: pyval
  cells_size :: pyval
  cells_spacing :: pyval
  cells_width :: pyval

text \<open>The defaults of the signature.\<close>

definition default_args :: load_args where
  "default_args =
     \<lparr>array = PInt 4,
      cells_border_color = PNone,
      cells_border_width = PInt 0,
      cells_corner_radius = PInt 30,
      cells_fg_color = PNone,
      cells_height = PNone,
      cells_size = PInt 100,
      cells_spacing = PInt 10,
      cells_width = PNone\<rparr>"

text \<open>
  \<^verbatim>\<open>(array, array) if isinstance(array, int) else tuple(array)\<close>. A string is iterable
  (its characters); \<^verbatim>\<open>None\<close> and a float are not.
\<close>

fun normalize_shape :: "pyval \<Rightarrow> py_error + pyval list" where
  "normalize_shape (PInt n) = Inr [PInt n, PInt n]"
| "normalize_shape (PBool b) = Inr [PBool b, PBool b]"
| "normalize_shape (PTuple xs) = Inr xs"
| "normalize_shape (PList xs) = Inr xs"
| "normalize_shape (PStr cs) = Inr (map (\<lambda>c. PStr [c]) cs)"
| "normalize_shape v = Inl (TypeError [Text (type_name v @ '' object is not iterable'')])"

definition shape_msg :: msg where
  "shape_msg =
     [Text ''`array` must be an int or a tuple/list with exactly 2 values: (rows, columns).'']"

text \<open>Lines 85 to 90: the shape is stored before its length is checked.\<close>

definition set_grid_shape :: "load_args \<Rightarrow> grid \<Rightarrow> py_error option \<times> grid" where
  "set_grid_shape a s =
     (case normalize_shape (array a) of
        Inl e \<Rightarrow> (Some e, s)
      | Inr gs \<Rightarrow>
          (if length gs \<noteq> 2
           then (Some (ValueError shape_msg), s\<lparr>grid_shape := Some gs\<rparr>)
           else (None, s\<lparr>grid_shape := Some gs\<rparr>)))"

text \<open>Lines 92 to 99: a height or width that is \<^verbatim>\<open>None\<close> falls back to \<^verbatim>\<open>cells_size\<close>.\<close>

definition set_cell_style :: "load_args \<Rightarrow> grid \<Rightarrow> grid" where
  "set_cell_style a s =
     s\<lparr>cell_border_color := cells_border_color a,
       cell_border_width := cells_border_width a,
       cell_corner_radius := cells_corner_radius a,
       cell_fg_color := cells_fg_color a,
       cell_height := (if cells_height a \<noteq> PNone then cells_height a else cells_size a),
       cell_width := (if cells_width a \<noteq> PNone then cells_width a else cells_size a)\<rparr>"

text \<open>Line 102.\<close>

definition set_cell_spacing :: "load_args \<Rightarrow> grid \<Rightarrow> py_error option \<times> grid" where
  "set_cell_spacing a s =
     (case normalize_cell_spacing (cells_spacing a) of
        Inl e \<Rightarrow> (Some e, s)
      | Inr sp \<Rightarrow> (None, s\<lparr>cell_spacing := sp\<rparr>))"

text \<open>Lines 104 to 106: the last indices, then the matrix is emptied.\<close>

definition set_last_indices :: "grid \<Rightarrow> py_error option \<times> grid" where
  "set_last_indices s =
     (case shape_item s 0 of
        Inl e \<Rightarrow> (Some e, s)
      | Inr e0 \<Rightarrow>
     (case py_sub_1 e0 of
        Inl e \<Rightarrow> (Some e, s)
      | Inr lr \<Rightarrow>
     (case shape_item (s\<lparr>last_row_index := lr\<rparr>) 1 of
        Inl e \<Rightarrow> (Some e, s\<lparr>last_row_index := lr\<rparr>)
      | Inr e1 \<Rightarrow>
     (case py_sub_1 e1 of
        Inl e \<Rightarrow> (Some e, s\<lparr>last_row_index := lr\<rparr>)
      | Inr lc \<Rightarrow>
          (None, s\<lparr>last_row_index := lr, last_column_index := lc, cells_matrix := []\<rparr>)))))"

text \<open>
  Lines 112 to 135: the frame created for position \<open>(row, col)\<close>, with the arguments of
  \<^verbatim>\<open>ctk.CTkFrame(...)\<close> and of \<^verbatim>\<open>cell.grid(...)\<close>. A spacing times a comparison is
  the spacing or zero.
\<close>

definition new_cell :: "grid \<Rightarrow> nat \<Rightarrow> nat \<Rightarrow> widget" where
  "new_cell s row col =
     (case cell_spacing s of (sl, st, sr, sb) \<Rightarrow>
        \<lparr>w_border_color = cell_border_color s,
         w_border_width = cell_border_width s,
         w_corner_radius = cell_corner_radius s,
         w_fg_color = cell_fg_color s,
         w_height = cell_height s,
         w_width = cell_width s,
         w_row = row,
         w_column = col,
         w_padx = (sl * of_bool (col \<noteq> 0),
                   sr * of_bool (index_ne col (last_column_index s))),
         w_pady = (st * of_bool (row \<noteq> 0),
                   sb * of_bool (index_ne row (last_row_index s))),
         w_destroyed = False\<rparr>)"

text \<open>Lines 112 to 137: the new frame enters the toolkit and is appended to its row.\<close>

definition add_cell :: "nat \<Rightarrow> nat \<Rightarrow> grid \<Rightarrow> grid" where
  "add_cell row col s =
     s\<lparr>widgets := widgets s @ [new_cell s row col],
       trace := trace s @ [Created (length (widgets s))],
       cells_matrix := (cells_matrix s)
          [row := cells_matrix s ! row @ [length (widgets s)]]\<rparr>"

text \<open>The inner loop of \<^verbatim>\<open>load_cells\<close>.\<close>

fun build_cols :: "nat \<Rightarrow> nat list \<Rightarrow> grid \<Rightarrow> grid" where
  "build_cols row [] s = s"
| "build_cols row (col # cols) s = build_cols row cols (add_cell row col s)"

text \<open>
  The outer loop: an empty row is appended, then \<^verbatim>\<open>range(self.grid_shape[1])\<close> is
  evaluated.
\<close>

fun build_rows :: "nat list \<Rightarrow> grid \<Rightarrow> py_error option \<times> grid" where
  "build_rows [] s = (None, s)"
| "build_rows (row # rows) s =
     (case shape_item s 1 of
        Inl e \<Rightarrow> (Some e, s\<lparr>cells_matrix := cells_matrix s @ [[]]\<rparr>)
      | Inr e1 \<Rightarrow>
     (case py_range e1 of
        Inl e \<Rightarrow> (Some e, s\<lparr>cells_matrix := cells_matrix s @ [[]]\<rparr>)
      | Inr m \<Rightarrow>
          build_rows rows
            (build_cols row [0..<m] (s\<lparr>cells_matrix := cells_matrix s @ [[]]\<rparr>))))"

text \<open>Lines 109 to 137.\<close>

definition build_cells :: "grid \<Rightarrow> py_error option \<times> grid" where
  "build_cells s =
     (case shape_item s 0 of
        Inl e \<Rightarrow> (Some e, s)
      | Inr e0 \<Rightarrow>
     (case py_range e0 of
        Inl e \<Rightarrow> (Some e, s)
      | Inr n \<Rightarrow> build_rows [0..<n] s))"

text \<open>
  \<^verbatim>\<open>load_cells(array, ...)\<close>. The result is the exception raised, if any, and the
  state the call leaves.
\<close>

definition load_cells :: "load_args \<Rightarrow> grid \<Rightarrow> py_error option \<times> grid" where
  "load_cells a s =
     and_then (destroy_all_cells s) (\<lambda>s.
     and_then (set_grid_shape a s) (\<lambda>s.
     and_then (set_cell_spacing a (set_cell_style a s)) (\<lambda>s.
     and_then (set_last_indices s) build_cells)))"

section \<open>Notions used by the statements\<close>


text \<open>The state after \<^verbatim>\<open>destroy()\<close> has been called on each handle of a list, in order.\<close>

definition destroy_list :: "nat list \<Rightarrow> grid \<Rightarrow> grid" where
  "destroy_list hs s = fold destroy_widget hs s"

text \<open>
  The stored matrix has the dimensions that \<^verbatim>\<open>grid_shape\<close> says: what the destruction
  loop relies on.
\<close>

definition matrix_fits_shape :: "grid \<Rightarrow> bool" where
  "matrix_fits_shape s =
     (cells_matrix s = [] \<or>
      (case grid_shape s of
         Some [e0, e1] \<Rightarrow>
           py_range e0 = Inr (length (cells_matrix s)) \<and>
           list_all (\<lambda>cells. py_range e1 = Inr (length cells)) (cells_matrix s)
       | _ \<Rightarrow> False))"

text \<open>Lines 85 to 106 of \<^verbatim>\<open>load_cells\<close>, between the destruction and the loops.\<close>

definition prepare :: "load_args \<Rightarrow> grid \<Rightarrow> py_error option \<times> grid" where
  "prepare a s =
     and_then (set_grid_shape a s) (\<lambda>s.
     and_then (set_cell_spacing a (set_cell_style a s)) set_last_indices)"

text \<open>The number of iterations of \<^verbatim>\<open>range(e)\<close>, none when it raises.\<close>

definition range_count :: "pyval \<Rightarrow> nat" where
  "range_count e = (case py_range e of Inr n \<Rightarrow> n | Inl _ \<Rightarrow> 0)"

text \<open>The rows and columns that the \<^verbatim>\<open>array\<close> argument asks for.\<close>

definition shape_rows :: "load_args \<Rightarrow> nat" where
  "shape_rows a =
     (case normalize_shape (array a) of Inr [e0, e1] \<Rightarrow> range_count e0 | _ \<Rightarrow> 0)"

definition shape_cols :: "load_args \<Rightarrow> nat" where
  "shape_cols a =
     (case normalize_shape (array a) of Inr [e0, e1] \<Rightarrow> range_count e1 | _ \<Rightarrow> 0)"

text \<open>The frames of the stored matrix, as the toolkit holds them: styling and placement.\<close>

definition layout :: "grid \<Rightarrow> widget list list" where
  "layout s = map (map (\<lambda>h. widgets s ! h)) (cells_matrix s)"

text \<open>\<^verbatim>\<open>CellsGrid(master)\<close>, with the default margin and padding 0.\<close>

definition default_grid :: grid where
  "default_grid =
     initial_grid (PInt 0, PInt 0, PInt 0, PInt 0) (PInt 0, PInt 0, PInt 0, PInt 0)"

text \<open>The arguments of \<^verbatim>\<open>load_cells(array=v)\<close>.\<close>

definition with_array :: "pyval \<Rightarrow> load_args" where
  "with_array v = default_args\<lparr>array := v\<rparr>"

section \<open>Rounding to a float\<close>










lemma ulp_nonzero [simp]: "ulp x \<noteq> 0"
  by (simp add: ulp_def)

lemma ulp_nonneg [simp]: "0 \<le> ulp x"
  by (simp add: ulp_def)








section \<open>The normalizers\<close>









text \<open>
  Claim C4. For every valid box-spacing input the box normalizer returns, without
  halving: for an int \<open>v\<close>, \<open>(v, v, v, v)\<close>; for a tuple or list of two numbers
  \<open>(x, y)\<close>, \<open>(x, y, x, y)\<close>; for a tuple or list of four numbers, the four values
  unchanged. The constructor stores what the normalizer returns for \<^verbatim>\<open>margin\<close> and
  for \<^verbatim>\<open>padding\<close>.
\<close>

theorem normalize_box_spacing_unchanged:
  assumes "isinstance_int_float a" and "isinstance_int_float b"
    and "isinstance_int_float c" and "isinstance_int_float d"
  shows "normalize_box_spacing (PInt v) name = Inr (PInt v, PInt v, PInt v, PInt v)
       \<and> normalize_box_spacing (PTuple [a, b]) name = Inr (a, b, a, b)
       \<and> normalize_box_spacing (PList [a, b]) name = Inr (a, b, a, b)
       \<and> normalize_box_spacing (PTuple [a, b, c, d]) name = Inr (a, b, c, d)
       \<and> normalize_box_spacing (PList [a, b, c, d]) name = Inr (a, b, c, d)
       \<and> (\<forall>s. cells_grid_init margin padding = Inr s \<longrightarrow>
             normalize_box_spacing margin ''margin'' = Inr (outer_margin s)
           \<and> normalize_box_spacing padding ''padding'' = Inr (inner_padding s))"
  using assms
  by (auto simp: normalize_box_spacing_def ensure_numeric_sequence_def cells_grid_init_def
      initial_grid_def split: sum.splits prod.splits)

theorem normalize_box_spacing_unchanged_witness:
  "isinstance_int_float (PInt 1) \<and> isinstance_int_float (PFloat (5 / 2))
   \<and> isinstance_int_float (PInt 3) \<and> isinstance_int_float (PBool False)
   \<and> normalize_box_spacing (PInt 8) ''margin'' = Inr (PInt 8, PInt 8, PInt 8, PInt 8)
   \<and> normalize_box_spacing (PTuple [PInt 1, PFloat (5 / 2)]) ''margin''
        = Inr (PInt 1, PFloat (5 / 2), PInt 1, PFloat (5 / 2))
   \<and> normalize_box_spacing (PList [PInt 1, PFloat (5 / 2), PInt 3, PBool False]) ''margin''
        = Inr (PInt 1, PFloat (5 / 2), PInt 3, PBool False)
   \<and> cells_grid_init (PInt 8) (PTuple [PInt 1, PInt 3])
        = Inr (initial_grid (PInt 8, PInt 8, PInt 8, PInt 8) (PInt 1, PInt 3, PInt 1, PInt 3))
   \<and> outer_margin (initial_grid (PInt 8, PInt 8, PInt 8, PInt 8)
        (PInt 1, PInt 3, PInt 1, PInt 3)) = (PInt 8, PInt 8, PInt 8, PInt 8)
   \<and> inner_padding (initial_grid (PInt 8, PInt 8, PInt 8, PInt 8)
        (PInt 1, PInt 3, PInt 1, PInt 3)) = (PInt 1, PInt 3, PInt 1, PInt 3)"
  using normalize_box_spacing_unchanged [of "PInt 1" "PFloat (5 / 2)" "PInt 3" "PBool False"
      8 "''margin''" "PInt 8" "PTuple [PInt 1, PInt 3]"]
  by (simp add: cells_grid_init_def initial_grid_def normalize_box_spacing_def
      ensure_numeric_sequence_def)

text \<open>
  Claim C6, as amended. For both normalizers: an argument that is neither an int nor a
  tuple nor a list fails with the type error that names the parameter; a tuple or list
  of length 2 or 4 with a non-numeric element fails with the type error that names the
  parameter and shows the sequence; a tuple or list of any other length fails with the
  value error that gives the valid forms, whatever its elements are. The cell
  normalizer's parameter name is \<^verbatim>\<open>cells_spacing\<close>.
\<close>

theorem spacing_errors:
  "(\<not> isinstance_int v \<and> \<not> isinstance_tuple_list v \<longrightarrow>
      normalize_box_spacing v name = Inl (TypeError (type_msg name v))
    \<and> normalize_cell_spacing v = Inl (TypeError (type_msg ''cells_spacing'' v)))
 \<and> (isinstance_tuple_list v \<and> length (seq_items v) \<in> {2, 4}
      \<and> \<not> list_all isinstance_int_float (seq_items v) \<longrightarrow>
      normalize_box_spacing v name = Inl (TypeError (element_msg name v))
    \<and> normalize_cell_spacing v = Inl (TypeError (element_msg ''cells_spacing'' v)))
 \<and> (isinstance_tuple_list v \<and> length (seq_items v) \<notin> {2, 4} \<longrightarrow>
      normalize_box_spacing v name = Inl (ValueError (length_msg name))
    \<and> normalize_cell_spacing v = Inl (ValueError (length_msg ''cells_spacing'')))"
  by (cases v)
     (auto simp: normalize_box_spacing_def normalize_cell_spacing_def
        ensure_numeric_sequence_def)

theorem spacing_errors_witness:
  "normalize_box_spacing (PStr ''10'') ''margin''
      = Inl (TypeError (type_msg ''margin'' (PStr ''10'')))
 \<and> normalize_cell_spacing PNone = Inl (TypeError (type_msg ''cells_spacing'' PNone))
 \<and> normalize_box_spacing (PTuple [PInt 1, PStr ''x'']) ''padding''
      = Inl (TypeError (element_msg ''padding'' (PTuple [PInt 1, PStr ''x''])))
 \<and> normalize_cell_spacing (PList [PInt 1, PNone, PInt 2, PInt 3])
      = Inl (TypeError (element_msg ''cells_spacing'' (PList [PInt 1, PNone, PInt 2, PInt 3])))
 \<and> normalize_box_spacing (PTuple [PInt 1, PInt 2, PInt 3]) ''margin''
      = Inl (ValueError (length_msg ''margin''))
 \<and> normalize_cell_spacing (PTuple [PInt 1, PInt 2, PInt 3])
      = Inl (ValueError (length_msg ''cells_spacing''))"
  using spacing_errors [of "PStr ''10''" "''margin''"]
    spacing_errors [of PNone "''margin''"]
    spacing_errors [of "PTuple [PInt 1, PStr ''x'']" "''padding''"]
    spacing_errors [of "PList [PInt 1, PNone, PInt 2, PInt 3]" "''margin''"]
    spacing_errors [of "PTuple [PInt 1, PInt 2, PInt 3]" "''margin''"]
  by simp

text \<open>
  Claim C6 as stated fails on a tuple of three strings: it contains a non-numeric
  element, and both normalizers raise the length error, whose message does not show the
  sequence.
\<close>

theorem non_numeric_triple_counterexample:
  "isinstance_tuple_list (PTuple [PStr ''a'', PStr ''b'', PStr ''c''])
 \<and> \<not> list_all isinstance_int_float (seq_items (PTuple [PStr ''a'', PStr ''b'', PStr ''c'']))
 \<and> normalize_cell_spacing (PTuple [PStr ''a'', PStr ''b'', PStr ''c''])
      = Inl (ValueError (length_msg ''cells_spacing''))
 \<and> normalize_box_spacing (PTuple [PStr ''a'', PStr ''b'', PStr ''c'']) ''margin''
      = Inl (ValueError (length_msg ''margin''))
 \<and> Shown (PTuple [PStr ''a'', PStr ''b'', PStr ''c'']) \<notin> set (length_msg ''cells_spacing'')
 \<and> Shown (PTuple [PStr ''a'', PStr ''b'', PStr ''c'']) \<notin> set (length_msg ''margin'')"
  by (simp add: normalize_cell_spacing_def normalize_box_spacing_def length_msg_def)

text \<open>
  Claim C10. A scalar float given as \<^verbatim>\<open>margin\<close>, \<^verbatim>\<open>padding\<close> or \<^verbatim>\<open>cells_spacing\<close>
  is rejected with the type error of the normalizer, which names the type
  \<^verbatim>\<open>float\<close>; floats inside a tuple of two or four are accepted by both normalizers,
  the cell normalizer returning their halves as floats and the box normalizer the floats
  themselves; and a value that is not a tuple or list is accepted only when it is an
  int.
\<close>

theorem scalar_float_rejected:
  "normalize_cell_spacing (PFloat x) = Inl (TypeError (type_msg ''cells_spacing'' (PFloat x)))
 \<and> normalize_box_spacing (PFloat x) name = Inl (TypeError (type_msg name (PFloat x)))
 \<and> type_name (PFloat x) = ''float''
 \<and> cells_grid_init (PFloat x) padding = Inl (TypeError (type_msg ''margin'' (PFloat x)))
 \<and> cells_grid_init (PInt m) (PFloat x) = Inl (TypeError (type_msg ''padding'' (PFloat x)))
 \<and> set_cell_spacing (a\<lparr>cells_spacing := PFloat x\<rparr>) s
      = (Some (TypeError (type_msg ''cells_spacing'' (PFloat x))), s)
 \<and> normalize_cell_spacing (PTuple [PFloat x, PFloat y])
      = Inr (double_round (x / 2), double_round (y / 2),
             double_round (x / 2), double_round (y / 2))
 \<and> normalize_cell_spacing (PTuple [PFloat x, PFloat y, PFloat z, PFloat w])
      = Inr (double_round (x / 2), double_round (y / 2),
             double_round (z / 2), double_round (w / 2))
 \<and> normalize_box_spacing (PTuple [PFloat x, PFloat y]) name
      = Inr (PFloat x, PFloat y, PFloat x, PFloat y)
 \<and> normalize_box_spacing (PTuple [PFloat x, PFloat y, PFloat z, PFloat w]) name
      = Inr (PFloat x, PFloat y, PFloat z, PFloat w)
 \<and> (\<forall>v r. \<not> isinstance_tuple_list v \<and> normalize_cell_spacing v = Inr r \<longrightarrow> isinstance_int v)
 \<and> (\<forall>v r. \<not> isinstance_tuple_list v \<and> normalize_box_spacing v name = Inr r \<longrightarrow> isinstance_int v)"
  by (auto simp: normalize_cell_spacing_def normalize_box_spacing_def
      cells_grid_init_def set_cell_spacing_def ensure_numeric_sequence_def
      halved_tuple_def split: if_splits)

theorem scalar_float_rejected_witness:
  "\<not> isinstance_tuple_list (PInt 3)
 \<and> normalize_cell_spacing (PInt 3) = Inr (3 / 2, 3 / 2, 3 / 2, 3 / 2)
 \<and> normalize_box_spacing (PInt 3) ''margin'' = Inr (PInt 3, PInt 3, PInt 3, PInt 3)
 \<and> isinstance_int (PInt 3)
 \<and> normalize_cell_spacing (PFloat (5 / 2))
      = Inl (TypeError (type_msg ''cells_spacing'' (PFloat (5 / 2))))
 \<and> normalize_box_spacing (PFloat (5 / 2)) ''margin''
      = Inl (TypeError (type_msg ''margin'' (PFloat (5 / 2))))"
proof -
  have c: "normalize_cell_spacing (PInt 3) = Inr (3 / 2, 3 / 2, 3 / 2, 3 / 2)"
    by code_simp
  have b: "normalize_box_spacing (PInt 3) ''margin'' = Inr (PInt 3, PInt 3, PInt 3, PInt 3)"
    by (simp add: normalize_box_spacing_def)
  note t = scalar_float_rejected [of "5 / 2" "''margin''"]
  have r: "normalize_cell_spacing (PFloat (5 / 2))
      = Inl (TypeError (type_msg ''cells_spacing'' (PFloat (5 / 2))))"
    by (rule t [THEN conjunct1])
  have r': "normalize_box_spacing (PFloat (5 / 2)) ''margin''
      = Inl (TypeError (type_msg ''margin'' (PFloat (5 / 2))))"
    by (rule t [THEN conjunct2, THEN conjunct1])
  from c b r r' show ?thesis by simp
qed

section \<open>Destroying and building the matrix\<close>

lemma destroy_list_Nil [simp]: "destroy_list [] s = s"
  by (simp add: destroy_list_def)

lemma destroy_list_Cons [simp]: "destroy_list (h # hs) s = destroy_list hs (destroy_widget h s)"
  by (simp add: destroy_list_def)

lemma destroy_list_append [simp]:
  "destroy_list (hs @ hs') s = destroy_list hs' (destroy_list hs s)"
  by (simp add: destroy_list_def)

lemma destroy_widget_fields [simp]:
  "cells_matrix (destroy_widget h s) = cells_matrix s"
  "grid_shape (destroy_widget h s) = grid_shape s"
  "length (widgets (destroy_widget h s)) = length (widgets s)"
  "trace (destroy_widget h s) = trace s @ [Destroyed h]"
  "shape_item (destroy_widget h s) i = shape_item s i"
  by (simp_all add: destroy_widget_def shape_item_def)

lemma destroy_list_fields [simp]:
  "cells_matrix (destroy_list hs s) = cells_matrix s"
  "grid_shape (destroy_list hs s) = grid_shape s"
  "length (widgets (destroy_list hs s)) = length (widgets s)"
  "trace (destroy_list hs s) = trace s @ map Destroyed hs"
  "shape_item (destroy_list hs s) i = shape_item s i"
  by (induction hs arbitrary: s; simp)+

lemma destroy_cols_in_range:
  assumes "row < length (cells_matrix s)"
    and "\<forall>c \<in> set cols. c < length (cells_matrix s ! row)"
  shows "destroy_cols row cols s = (None, destroy_list (map ((!) (cells_matrix s ! row)) cols) s)"
  using assms
  by (induction cols arbitrary: s) (simp_all add: list_item_def)

lemma destroy_cols_row:
  assumes "row < length (cells_matrix s)" and "length (cells_matrix s ! row) = m"
  shows "destroy_cols row [0..<m] s = (None, destroy_list (cells_matrix s ! row) s)"
proof -
  have "map ((!) (cells_matrix s ! row)) [0..<m] = cells_matrix s ! row"
    using map_nth [of "cells_matrix s ! row"] assms(2) by simp
  then show ?thesis
    using destroy_cols_in_range [of row s "[0..<m]"] assms by simp
qed

lemma destroy_rows_fit:
  assumes "shape_item s 1 = Inr e1"
    and "\<forall>cells \<in> set (cells_matrix s). py_range e1 = Inr (length cells)"
    and "i + k = length (cells_matrix s)"
  shows "destroy_rows [i..<i + k] s =
           (None, destroy_list (concat (drop i (cells_matrix s))) s)"
  using assms
proof (induction k arbitrary: i s)
  case 0
  then show ?case by simp
next
  case (Suc k)
  from Suc.prems have i: "i < length (cells_matrix s)" by simp
  then have "cells_matrix s ! i \<in> set (cells_matrix s)" by simp
  with Suc.prems obtain m where m: "py_range e1 = Inr m" "length (cells_matrix s ! i) = m"
    by blast
  let ?s = "destroy_list (cells_matrix s ! i) s"
  have cols: "destroy_cols i [0..<m] s = (None, ?s)"
    using destroy_cols_row [OF i m(2)] .
  have rest: "destroy_rows [Suc i..<Suc i + k] ?s =
      (None, destroy_list (concat (drop (Suc i) (cells_matrix ?s))) ?s)"
    using Suc.prems by (intro Suc.IH) simp_all
  have split: "drop i (cells_matrix s) = cells_matrix s ! i # drop (Suc i) (cells_matrix s)"
    using i by (simp add: Cons_nth_drop_Suc)
  have "[i..<i + Suc k] = i # [Suc i..<Suc i + k]"
    by (simp add: upt_conv_Cons)
  then show ?case
    using Suc.prems(1) m(1) cols rest split
    by (simp add: and_then_def)
qed

lemma destroy_all_cells_fit:
  assumes "matrix_fits_shape s"
  shows "destroy_all_cells s = (None, destroy_list (concat (cells_matrix s)) s)"
proof (cases "cells_matrix s = []")
  case True
  then show ?thesis by (simp add: destroy_all_cells_def)
next
  case False
  with assms obtain e0 e1 where gs: "grid_shape s = Some [e0, e1]"
    and r0: "py_range e0 = Inr (length (cells_matrix s))"
    and r1: "\<forall>cells \<in> set (cells_matrix s). py_range e1 = Inr (length cells)"
    by (auto simp: matrix_fits_shape_def list_all_iff split: option.splits list.splits)
  have "destroy_rows [0..<0 + length (cells_matrix s)] s =
      (None, destroy_list (concat (drop 0 (cells_matrix s))) s)"
    using gs r1 by (intro destroy_rows_fit) (simp_all add: shape_item_def list_item_def)
  then show ?thesis
    using False gs r0 by (simp add: destroy_all_cells_def shape_item_def list_item_def)
qed

lemma new_cell_add_cell [simp]: "new_cell (add_cell r c s) = new_cell s"
  by (simp add: new_cell_def add_cell_def fun_eq_iff)

lemma build_cols_form:
  assumes "row < length (cells_matrix s)"
  shows "build_cols row cols s =
     s\<lparr>widgets := widgets s @ map (new_cell s row) cols,
       trace := trace s @ map Created [length (widgets s)..<length (widgets s) + length cols],
       cells_matrix := (cells_matrix s)
          [row := cells_matrix s ! row @
                  [length (widgets s)..<length (widgets s) + length cols]]\<rparr>"
  using assms
proof (induction cols arbitrary: s)
  case Nil
  then show ?case by simp
next
  case (Cons col cols)
  let ?s = "add_cell row col s"
  let ?k = "length (widgets s)"
  have len: "row < length (cells_matrix ?s)"
    using Cons.prems by (simp add: add_cell_def)
  have upt: "[?k..<?k + length (col # cols)] = ?k # [Suc ?k..<Suc ?k + length cols]"
    using upt_conv_Cons [of ?k "?k + Suc (length cols)"] by simp
  have w: "widgets ?s = widgets s @ [new_cell s row col]"
    and t: "trace ?s = trace s @ [Created ?k]"
    and c: "cells_matrix ?s = (cells_matrix s)[row := cells_matrix s ! row @ [?k]]"
    by (simp_all add: add_cell_def)
  have "build_cols row (col # cols) s =
      ?s\<lparr>widgets := widgets ?s @ map (new_cell s row) cols,
        trace := trace ?s @ map Created [Suc ?k..<Suc ?k + length cols],
        cells_matrix := (cells_matrix ?s)
          [row := cells_matrix ?s ! row @ [Suc ?k..<Suc ?k + length cols]]\<rparr>"
    using Cons.IH [OF len] by (simp add: w del: upt_Suc)
  also have "\<dots> =
      s\<lparr>widgets := widgets s @ map (new_cell s row) (col # cols),
        trace := trace s @ map Created (?k # [Suc ?k..<Suc ?k + length cols]),
        cells_matrix := (cells_matrix s)
          [row := cells_matrix s ! row @ (?k # [Suc ?k..<Suc ?k + length cols])]\<rparr>"
    unfolding w t c using Cons.prems by (simp add: add_cell_def del: upt_Suc)
  finally show ?case
    unfolding upt .
qed


lemma new_cell_upd [simp]:
  "new_cell (s\<lparr>cells_matrix := c\<rparr>) = new_cell s"
  "new_cell (s\<lparr>widgets := w\<rparr>) = new_cell s"
  "new_cell (s\<lparr>trace := t\<rparr>) = new_cell s"
  by (simp_all add: new_cell_def fun_eq_iff)

lemma shape_item_upd [simp]:
  "shape_item (s\<lparr>cells_matrix := c\<rparr>) j = shape_item s j"
  "shape_item (s\<lparr>widgets := w\<rparr>) j = shape_item s j"
  "shape_item (s\<lparr>trace := t\<rparr>) j = shape_item s j"
  by (simp_all add: shape_item_def)

lemma upt_rows_Suc: "[0..<Suc n] = 0 # map Suc [0..<n]"
  by (simp add: upt_conv_Cons map_Suc_upt del: upt_Suc)

lemma build_rows_form:
  assumes "shape_item s 1 = Inr e1" and "py_range e1 = Inr m"
    and "i = length (cells_matrix s)"
  shows "build_rows [i..<i + n] s =
     (None,
      s\<lparr>cells_matrix := cells_matrix s @
           map (\<lambda>r. [length (widgets s) + r * m..<length (widgets s) + r * m + m]) [0..<n],
        widgets := widgets s @ concat (map (\<lambda>r. map (new_cell s (i + r)) [0..<m]) [0..<n]),
        trace := trace s @ map Created [length (widgets s)..<length (widgets s) + n * m]\<rparr>)"
  using assms
proof (induction n arbitrary: i s)
  case 0
  then show ?case by simp
next
  case (Suc n)
  let ?k = "length (widgets s)"
  let ?s1 = "s\<lparr>cells_matrix := cells_matrix s @ [[]]\<rparr>"
  let ?s2 = "s\<lparr>widgets := widgets s @ map (new_cell s i) [0..<m],
               trace := trace s @ map Created [?k..<?k + m],
               cells_matrix := cells_matrix s @ [[?k..<?k + m]]\<rparr>"
  have cols: "build_cols i [0..<m] ?s1 = ?s2"
    using Suc.prems(3) by (subst build_cols_form) (simp_all add: nth_append)
  have rest: "build_rows [Suc i..<Suc i + n] ?s2 =
     (None,
      ?s2\<lparr>cells_matrix := cells_matrix ?s2 @
           map (\<lambda>r. [length (widgets ?s2) + r * m..<length (widgets ?s2) + r * m + m]) [0..<n],
        widgets := widgets ?s2 @ concat (map (\<lambda>r. map (new_cell ?s2 (Suc i + r)) [0..<m]) [0..<n]),
        trace := trace ?s2 @
           map Created [length (widgets ?s2)..<length (widgets ?s2) + n * m]\<rparr>)"
    using Suc.prems by (intro Suc.IH) simp_all
  have rows: "[i..<i + Suc n] = i # [Suc i..<Suc i + n]"
    using upt_conv_Cons [of i "i + Suc n"] by simp
  have tr: "[?k..<?k + Suc n * m] = [?k..<?k + m] @ [?k + m..<?k + m + n * m]"
    using upt_add_eq_append [of ?k "?k + m" "n * m"] by (simp add: ac_simps)
  have "build_rows [i..<i + Suc n] s = build_rows [Suc i..<Suc i + n] ?s2"
    unfolding rows using Suc.prems(1,2) cols by simp
  also note rest
  finally show ?case
    unfolding upt_rows_Suc tr
    by (simp add: o_def ac_simps del: upt_Suc)
qed

lemma and_then_assoc:
  "and_then (and_then r f) g = and_then r (\<lambda>s. and_then (f s) g)"
  by (simp add: and_then_def split: prod.splits option.splits)

lemma load_cells_stages:
  "load_cells a s = and_then (destroy_all_cells s) (\<lambda>s. and_then (prepare a s) build_cells)"
  by (simp add: load_cells_def prepare_def and_then_assoc)

lemma and_then_NoneE:
  assumes "and_then r f = (None, s')"
  obtains s1 where "r = (None, s1)" and "f s1 = (None, s')"
  using assms by (auto simp: and_then_def split: prod.splits option.splits)

lemma prepare_success:
  assumes "prepare a s = (None, s')"
  obtains e0 e1 sp lr lc where
    "normalize_shape (array a) = Inr [e0, e1]"
    "normalize_cell_spacing (cells_spacing a) = Inr sp"
    "py_sub_1 e0 = Inr lr" "py_sub_1 e1 = Inr lc"
    "s' = (set_cell_style a s)\<lparr>grid_shape := Some [e0, e1], cell_spacing := sp,
            last_row_index := lr, last_column_index := lc, cells_matrix := []\<rparr>"
proof -
  from assms obtain s1 s2 where 1: "set_grid_shape a s = (None, s1)"
    and 2: "set_cell_spacing a (set_cell_style a s1) = (None, s2)"
    and 3: "set_last_indices s2 = (None, s')"
    unfolding prepare_def by (elim and_then_NoneE)
  from 1 obtain gs where gs: "normalize_shape (array a) = Inr gs" "length gs = 2"
    "s1 = s\<lparr>grid_shape := Some gs\<rparr>"
    by (auto simp: set_grid_shape_def split: sum.splits if_splits)
  from gs(2) obtain e0 e1 where e: "gs = [e0, e1]"
    by (cases gs; simp) (metis Suc_length_conv length_0_conv)
  from 2 obtain sp where sp: "normalize_cell_spacing (cells_spacing a) = Inr sp"
    "s2 = (set_cell_style a s1)\<lparr>cell_spacing := sp\<rparr>"
    by (auto simp: set_cell_spacing_def split: sum.splits)
  have items: "shape_item s2 0 = Inr e0" "\<And>v. shape_item (s2\<lparr>last_row_index := v\<rparr>) 1 = Inr e1"
    by (simp_all add: sp gs e shape_item_def list_item_def set_cell_style_def)
  from 3 items obtain lr lc where l: "py_sub_1 e0 = Inr lr" "py_sub_1 e1 = Inr lc"
    "s' = s2\<lparr>last_row_index := lr, last_column_index := lc, cells_matrix := []\<rparr>"
    by (auto simp: set_last_indices_def split: sum.splits)
  show ?thesis
  proof (rule that)
    show "normalize_shape (array a) = Inr [e0, e1]" using gs(1) e by simp
    show "normalize_cell_spacing (cells_spacing a) = Inr sp" by (rule sp(1))
    show "py_sub_1 e0 = Inr lr" by (rule l(1))
    show "py_sub_1 e1 = Inr lc" by (rule l(2))
    show "s' = (set_cell_style a s)\<lparr>grid_shape := Some [e0, e1], cell_spacing := sp,
            last_row_index := lr, last_column_index := lc, cells_matrix := []\<rparr>"
      by (simp add: l(3) sp(2) gs(3) e set_cell_style_def)
  qed
qed

lemma length_concat_rows:
  "length (concat (map (\<lambda>r. map (f r) [0..<m]) [0..<n])) = n * m"
  by (induction n) simp_all

lemma row_major_index: "r < n \<Longrightarrow> c < m \<Longrightarrow> r * m + c < n * (m::nat)"
proof -
  assume "r < n" and "c < m"
  then have "r * m + c < Suc r * m" by simp
  also have "\<dots> \<le> n * m" using \<open>r < n\<close> by (intro mult_le_mono1) simp
  finally show ?thesis .
qed

lemma concat_rows_nth:
  "r < n \<Longrightarrow> c < m \<Longrightarrow> concat (map (\<lambda>r. map (f r) [0..<m]) [0..<n]) ! (r * m + c) = f r c"
proof (induction n)
  case 0
  then show ?case by simp
next
  case (Suc n)
  show ?case
  proof (cases "r < n")
    case True
    then have "r * m + c < n * m" using Suc.prems(2) by (rule row_major_index)
    then show ?thesis
      using Suc.IH [OF True Suc.prems(2)] by (simp add: nth_append length_concat_rows)
  next
    case False
    with Suc.prems have "r = n" by simp
    then show ?thesis
      using Suc.prems(2) by (simp add: nth_append length_concat_rows)
  qed
qed

lemma concat_handle_rows:
  "concat (map (\<lambda>r. [k + r * m..<k + r * m + m]) [0..<n]) = [k..<k + n * m]"
proof (induction n)
  case 0
  then show ?case by simp
next
  case (Suc n)
  have "[k..<k + Suc n * m] = [k..<k + n * m] @ [k + n * m..<k + n * m + m]"
    using upt_add_eq_append [of k "k + n * m" m] by (simp add: ac_simps)
  then show ?case using Suc.IH by simp
qed

lemma build_cells_success:
  assumes "build_cells s = (None, s')"
    and "grid_shape s = Some [e0, e1]" and "cells_matrix s = []"
  shows "py_range e0 = Inr (range_count e0)"
    and "0 < range_count e0 \<Longrightarrow> py_range e1 = Inr (range_count e1)"
    and "s' = s\<lparr>cells_matrix :=
             map (\<lambda>r. [length (widgets s) + r * range_count e1..<
                        length (widgets s) + r * range_count e1 + range_count e1])
               [0..<range_count e0],
           widgets := widgets s @
             concat (map (\<lambda>r. map (new_cell s r) [0..<range_count e1]) [0..<range_count e0]),
           trace := trace s @
             map Created [length (widgets s)..<
                          length (widgets s) + range_count e0 * range_count e1]\<rparr>"
proof -
  have items: "shape_item s 0 = Inr e0" "shape_item s 1 = Inr e1"
    using assms(2) by (simp_all add: shape_item_def list_item_def)
  from assms(1) items obtain n where n: "py_range e0 = Inr n"
    and rows: "build_rows [0..<n] s = (None, s')"
    by (auto simp: build_cells_def split: sum.splits)
  show r0: "py_range e0 = Inr (range_count e0)"
    using n by (simp add: range_count_def)
  have cnt: "range_count e0 = n" using n by (simp add: range_count_def)
  have r1: "py_range e1 = Inr (range_count e1)" if "0 < n"
  proof -
    from that have "[0..<n] = 0 # [1..<n]" by (simp add: upt_conv_Cons)
    with rows items(2) show ?thesis
      by (auto simp: range_count_def split: sum.splits)
  qed
  then show "0 < range_count e0 \<Longrightarrow> py_range e1 = Inr (range_count e1)"
    using cnt by simp
  show "s' = s\<lparr>cells_matrix :=
             map (\<lambda>r. [length (widgets s) + r * range_count e1..<
                        length (widgets s) + r * range_count e1 + range_count e1])
               [0..<range_count e0],
           widgets := widgets s @
             concat (map (\<lambda>r. map (new_cell s r) [0..<range_count e1]) [0..<range_count e0]),
           trace := trace s @
             map Created [length (widgets s)..<
                          length (widgets s) + range_count e0 * range_count e1]\<rparr>"
  proof (cases "0 < n")
    case True
    have "build_rows [0..<0 + n] s = (None,
      s\<lparr>cells_matrix := cells_matrix s @
           map (\<lambda>r. [length (widgets s) + r * range_count e1..<
                      length (widgets s) + r * range_count e1 + range_count e1]) [0..<n],
        widgets := widgets s @
           concat (map (\<lambda>r. map (new_cell s (0 + r)) [0..<range_count e1]) [0..<n]),
        trace := trace s @
           map Created [length (widgets s)..<length (widgets s) + n * range_count e1]\<rparr>)"
      using items(2) r1 [OF True] assms(3) by (intro build_rows_form) simp_all
    with rows show ?thesis by (simp add: cnt assms(3))
  next
    case False
    then have "n = 0" by simp
    with rows have same: "s' = s" by simp
    have "s\<lparr>cells_matrix := cells_matrix s\<rparr> = s" by simp
    then have "s\<lparr>cells_matrix := []\<rparr> = s" unfolding assms(3) .
    then show ?thesis unfolding same by (simp add: cnt \<open>n = 0\<close>)
  qed
qed

lemma load_cells_success:
  assumes "load_cells a s = (None, s')"
  obtains sd e0 e1 sp lr lc p where
    "destroy_all_cells s = (None, sd)"
    "normalize_shape (array a) = Inr [e0, e1]"
    "normalize_cell_spacing (cells_spacing a) = Inr sp"
    "py_sub_1 e0 = Inr lr" "py_sub_1 e1 = Inr lc"
    "py_range e0 = Inr (shape_rows a)"
    "0 < shape_rows a \<longrightarrow> py_range e1 = Inr (shape_cols a)"
    "p = (set_cell_style a sd)\<lparr>grid_shape := Some [e0, e1], cell_spacing := sp,
            last_row_index := lr, last_column_index := lc, cells_matrix := []\<rparr>"
    "s' = p\<lparr>cells_matrix :=
             map (\<lambda>r. [length (widgets sd) + r * shape_cols a..<
                        length (widgets sd) + r * shape_cols a + shape_cols a])
               [0..<shape_rows a],
           widgets := widgets sd @
             concat (map (\<lambda>r. map (new_cell p r) [0..<shape_cols a]) [0..<shape_rows a]),
           trace := trace sd @
             map Created [length (widgets sd)..<
                          length (widgets sd) + shape_rows a * shape_cols a]\<rparr>"
proof -
  from assms obtain sd p where d: "destroy_all_cells s = (None, sd)"
    and p: "prepare a sd = (None, p)" and b: "build_cells p = (None, s')"
    unfolding load_cells_stages by (elim and_then_NoneE)
  from p obtain e0 e1 sp lr lc where e: "normalize_shape (array a) = Inr [e0, e1]"
    and sp: "normalize_cell_spacing (cells_spacing a) = Inr sp"
    and l: "py_sub_1 e0 = Inr lr" "py_sub_1 e1 = Inr lc"
    and pe: "p = (set_cell_style a sd)\<lparr>grid_shape := Some [e0, e1], cell_spacing := sp,
            last_row_index := lr, last_column_index := lc, cells_matrix := []\<rparr>"
    by (rule prepare_success)
  have pf: "grid_shape p = Some [e0, e1]" "cells_matrix p = []"
    "widgets p = widgets sd" "trace p = trace sd"
    by (simp_all add: pe set_cell_style_def)
  have rc: "shape_rows a = range_count e0" "shape_cols a = range_count e1"
    by (simp_all add: shape_rows_def shape_cols_def e)
  note bs = build_cells_success [OF b pf(1,2), folded rc, unfolded pf(3,4)]
  from bs(2) have cols: "0 < shape_rows a \<longrightarrow> py_range e1 = Inr (shape_cols a)"
    by simp
  show ?thesis
    using d e sp l bs(1) cols pe bs(3) by (rule that)
qed

section \<open>What a successful load leaves\<close>

lemma index_ne_last:
  assumes "py_range e = Inr n" and "py_sub_1 e = Inr l" and "i < n"
  shows "index_ne i l = (i \<noteq> n - 1)"
  using assms by (cases e) (auto split: if_splits)

lemma loaded_facts:
  assumes "load_cells a s = (None, s')"
  defines "sd \<equiv> snd (destroy_all_cells s)"
  shows "destroy_all_cells s = (None, sd)"
    and "length (cells_matrix s') = shape_rows a"
    and "\<And>r. r < shape_rows a \<Longrightarrow>
        cells_matrix s' ! r = [length (widgets sd) + r * shape_cols a..<
                               length (widgets sd) + r * shape_cols a + shape_cols a]"
    and "concat (cells_matrix s') =
        [length (widgets sd)..<length (widgets sd) + shape_rows a * shape_cols a]"
    and "widgets s' = widgets sd @
        concat (map (\<lambda>r. map (new_cell s' r) [0..<shape_cols a]) [0..<shape_rows a])"
    and "\<And>r c. r < shape_rows a \<Longrightarrow> c < shape_cols a \<Longrightarrow>
        widgets s' ! (length (widgets sd) + r * shape_cols a + c) = new_cell s' r c"
    and "trace s' = trace sd @ map Created (concat (cells_matrix s'))"
    and "matrix_fits_shape s'"
proof -
  from assms(1) obtain sd' e0 e1 sp lr lc p where
    d: "destroy_all_cells s = (None, sd')"
    and e: "normalize_shape (array a) = Inr [e0, e1]"
    and sp: "normalize_cell_spacing (cells_spacing a) = Inr sp"
    and l: "py_sub_1 e0 = Inr lr" "py_sub_1 e1 = Inr lc"
    and r0: "py_range e0 = Inr (shape_rows a)"
    and r1: "0 < shape_rows a \<longrightarrow> py_range e1 = Inr (shape_cols a)"
    and p: "p = (set_cell_style a sd')\<lparr>grid_shape := Some [e0, e1], cell_spacing := sp,
            last_row_index := lr, last_column_index := lc, cells_matrix := []\<rparr>"
    and s': "s' = p\<lparr>cells_matrix :=
             map (\<lambda>r. [length (widgets sd') + r * shape_cols a..<
                        length (widgets sd') + r * shape_cols a + shape_cols a])
               [0..<shape_rows a],
           widgets := widgets sd' @
             concat (map (\<lambda>r. map (new_cell p r) [0..<shape_cols a]) [0..<shape_rows a]),
           trace := trace sd' @
             map Created [length (widgets sd')..<
                          length (widgets sd') + shape_rows a * shape_cols a]\<rparr>"
    by (rule load_cells_success)
  have sd: "sd' = sd" by (simp add: sd_def d)
  let ?k = "length (widgets sd)"
  let ?n = "shape_rows a" and ?m = "shape_cols a"
  have nc: "new_cell s' = new_cell p" by (simp add: s')
  have cm: "cells_matrix s' = map (\<lambda>r. [?k + r * ?m..<?k + r * ?m + ?m]) [0..<?n]"
    by (simp add: s' sd)
  have ws: "widgets s' = widgets sd @ concat (map (\<lambda>r. map (new_cell p r) [0..<?m]) [0..<?n])"
    by (simp add: s' sd)
  have tr: "trace s' = trace sd @ map Created [?k..<?k + ?n * ?m]"
    by (simp add: s' sd)
  have gs: "grid_shape s' = Some [e0, e1]" by (simp add: s' p)
  show "destroy_all_cells s = (None, sd)" using d sd by simp
  show "length (cells_matrix s') = ?n" by (simp add: cm)
  show "cells_matrix s' ! r = [?k + r * ?m..<?k + r * ?m + ?m]" if "r < ?n" for r
    using that by (simp add: cm)
  show cc: "concat (cells_matrix s') = [?k..<?k + ?n * ?m]"
    unfolding cm by (rule concat_handle_rows)
  show "widgets s' = widgets sd @ concat (map (\<lambda>r. map (new_cell s' r) [0..<?m]) [0..<?n])"
    unfolding nc by (rule ws)
  show "widgets s' ! (?k + r * ?m + c) = new_cell s' r c" if "r < ?n" "c < ?m" for r c
    using concat_rows_nth [OF that, of "new_cell p"]
    by (simp add: ws nc nth_append add.assoc)
  show "trace s' = trace sd @ map Created (concat (cells_matrix s'))"
    unfolding cc by (rule tr)
  show "matrix_fits_shape s'"
  proof (cases "?n = 0")
    case True
    then show ?thesis by (simp add: matrix_fits_shape_def cm)
  next
    case False
    then show ?thesis
      using r0 r1 by (simp add: matrix_fits_shape_def cm gs list_all_iff)
  qed
qed

lemma loaded_style:
  assumes "load_cells a s = (None, s')"
  shows "\<exists>e0 e1. normalize_shape (array a) = Inr [e0, e1] \<and> grid_shape s' = Some [e0, e1]
           \<and> py_sub_1 e0 = Inr (last_row_index s') \<and> py_sub_1 e1 = Inr (last_column_index s')
           \<and> py_range e0 = Inr (shape_rows a)
           \<and> (0 < shape_rows a \<longrightarrow> py_range e1 = Inr (shape_cols a))"
    and "normalize_cell_spacing (cells_spacing a) = Inr (cell_spacing s')"
    and "cell_border_color s' = cells_border_color a"
    and "cell_border_width s' = cells_border_width a"
    and "cell_corner_radius s' = cells_corner_radius a"
    and "cell_fg_color s' = cells_fg_color a"
    and "cell_height s' = (if cells_height a \<noteq> PNone then cells_height a else cells_size a)"
    and "cell_width s' = (if cells_width a \<noteq> PNone then cells_width a else cells_size a)"
proof -
  from assms obtain sd e0 e1 sp lr lc p where
    d: "destroy_all_cells s = (None, sd)"
    and e: "normalize_shape (array a) = Inr [e0, e1]"
    and sp: "normalize_cell_spacing (cells_spacing a) = Inr sp"
    and l: "py_sub_1 e0 = Inr lr" "py_sub_1 e1 = Inr lc"
    and r0: "py_range e0 = Inr (shape_rows a)"
    and r1: "0 < shape_rows a \<longrightarrow> py_range e1 = Inr (shape_cols a)"
    and p: "p = (set_cell_style a sd)\<lparr>grid_shape := Some [e0, e1], cell_spacing := sp,
            last_row_index := lr, last_column_index := lc, cells_matrix := []\<rparr>"
    and s': "s' = p\<lparr>cells_matrix :=
             map (\<lambda>r. [length (widgets sd) + r * shape_cols a..<
                        length (widgets sd) + r * shape_cols a + shape_cols a])
               [0..<shape_rows a],
           widgets := widgets sd @
             concat (map (\<lambda>r. map (new_cell p r) [0..<shape_cols a]) [0..<shape_rows a]),
           trace := trace sd @
             map Created [length (widgets sd)..<
                          length (widgets sd) + shape_rows a * shape_cols a]\<rparr>"
    by (rule load_cells_success)
  have f: "grid_shape s' = Some [e0, e1]" "last_row_index s' = lr" "last_column_index s' = lc"
    "cell_spacing s' = sp"
    by (simp_all add: s' p)
  show "\<exists>e0 e1. normalize_shape (array a) = Inr [e0, e1] \<and> grid_shape s' = Some [e0, e1]
           \<and> py_sub_1 e0 = Inr (last_row_index s') \<and> py_sub_1 e1 = Inr (last_column_index s')
           \<and> py_range e0 = Inr (shape_rows a)
           \<and> (0 < shape_rows a \<longrightarrow> py_range e1 = Inr (shape_cols a))"
    by (rule exI [of _ e0], rule exI [of _ e1]) (simp add: e l r0 r1 f)
  show "normalize_cell_spacing (cells_spacing a) = Inr (cell_spacing s')"
    using sp f by simp
  show "cell_border_color s' = cells_border_color a"
    and "cell_border_width s' = cells_border_width a"
    and "cell_corner_radius s' = cells_corner_radius a"
    and "cell_fg_color s' = cells_fg_color a"
    and "cell_height s' = (if cells_height a \<noteq> PNone then cells_height a else cells_size a)"
    and "cell_width s' = (if cells_width a \<noteq> PNone then cells_width a else cells_size a)"
    by (simp_all add: s' p set_cell_style_def)
qed

lemma destroy_widget_nth:
  "h' < length (widgets s) \<Longrightarrow>
   widgets (destroy_widget h s) ! h' =
     (if h' = h then (widgets s ! h')\<lparr>w_destroyed := True\<rparr> else widgets s ! h')"
  by (simp add: destroy_widget_def nth_list_update)

lemma destroy_list_destroyed:
  assumes "h < length (widgets s)"
    and "h \<in> set hs \<or> w_destroyed (widgets s ! h)"
  shows "w_destroyed (widgets (destroy_list hs s) ! h)"
  using assms
proof (induction hs arbitrary: s)
  case Nil
  then show ?case by simp
next
  case (Cons x hs)
  have "h \<in> set hs \<or> w_destroyed (widgets (destroy_widget x s) ! h)"
    using Cons.prems by (auto simp: destroy_widget_nth)
  then show ?case
    using Cons.prems(1) by (simp add: Cons.IH)
qed

lemma destroy_widget_other_fields [simp]:
  "cell_spacing (destroy_widget h s) = cell_spacing s"
  "last_row_index (destroy_widget h s) = last_row_index s"
  "last_column_index (destroy_widget h s) = last_column_index s"
  "cell_border_color (destroy_widget h s) = cell_border_color s"
  "cell_border_width (destroy_widget h s) = cell_border_width s"
  "cell_corner_radius (destroy_widget h s) = cell_corner_radius s"
  "cell_fg_color (destroy_widget h s) = cell_fg_color s"
  "cell_height (destroy_widget h s) = cell_height s"
  "cell_width (destroy_widget h s) = cell_width s"
  by (simp_all add: destroy_widget_def)

lemma destroy_list_other_fields [simp]:
  "cell_spacing (destroy_list hs s) = cell_spacing s"
  "last_row_index (destroy_list hs s) = last_row_index s"
  "last_column_index (destroy_list hs s) = last_column_index s"
  "cell_border_color (destroy_list hs s) = cell_border_color s"
  "cell_border_width (destroy_list hs s) = cell_border_width s"
  "cell_corner_radius (destroy_list hs s) = cell_corner_radius s"
  "cell_fg_color (destroy_list hs s) = cell_fg_color s"
  "cell_height (destroy_list hs s) = cell_height s"
  "cell_width (destroy_list hs s) = cell_width s"
  by (induction hs arbitrary: s; simp)+

lemma new_cell_not_destroyed [simp]: "\<not> w_destroyed (new_cell s r c)"
  by (simp add: new_cell_def split: prod.splits)

lemma loaded_alive:
  assumes "load_cells a s = (None, s')" and "h \<in> set (concat (cells_matrix s'))"
  shows "\<not> w_destroyed (widgets s' ! h)" and "h < length (widgets s')"
    and "length (widgets (snd (destroy_all_cells s))) \<le> h"
proof -
  let ?sd = "snd (destroy_all_cells s)"
  let ?new = "concat (map (\<lambda>r. map (new_cell s' r) [0..<shape_cols a]) [0..<shape_rows a])"
  note cc = loaded_facts(4) [OF assms(1)] and ws = loaded_facts(5) [OF assms(1)]
  from assms(2) have h: "length (widgets ?sd) \<le> h"
    "h < length (widgets ?sd) + shape_rows a * shape_cols a"
    unfolding cc by simp_all
  then have i: "h - length (widgets ?sd) < length ?new"
    by (simp add: length_concat_rows)
  have "widgets s' ! h = ?new ! (h - length (widgets ?sd))"
    using h(1) by (subst ws) (simp add: nth_append)
  also have "\<dots> \<in> set ?new" using i by (rule nth_mem)
  finally show "\<not> w_destroyed (widgets s' ! h)" by auto
  show "h < length (widgets s')"
    using h(2) by (subst ws) (simp add: length_concat_rows)
  show "length (widgets ?sd) \<le> h" by (rule h(1))
qed

lemma loaded_row_lengths:
  assumes "load_cells a s = (None, s')" and "cells \<in> set (cells_matrix s')"
  shows "length cells = shape_cols a"
proof -
  from assms(2) obtain r where r: "r < length (cells_matrix s')" "cells = cells_matrix s' ! r"
    by (auto simp: in_set_conv_nth)
  then have "r < shape_rows a" using loaded_facts(2) [OF assms(1)] by simp
  from loaded_facts(3) [OF assms(1) this] r(2) show ?thesis by simp
qed

lemma loaded_layout:
  assumes "load_cells a s = (None, s')"
  shows "layout s' = map (\<lambda>r. map (new_cell s' r) [0..<shape_cols a]) [0..<shape_rows a]"
proof (rule nth_equalityI)
  show len: "length (layout s') =
      length (map (\<lambda>r. map (new_cell s' r) [0..<shape_cols a]) [0..<shape_rows a])"
    using loaded_facts(2) [OF assms] by (simp add: layout_def)
  fix r assume "r < length (layout s')"
  then have r: "r < shape_rows a" using len by simp
  let ?k = "length (widgets (snd (destroy_all_cells s)))"
  have "layout s' ! r = map (\<lambda>h. widgets s' ! h) (cells_matrix s' ! r)"
    using r loaded_facts(2) [OF assms] by (simp add: layout_def)
  also have "\<dots> = map (\<lambda>h. widgets s' ! h)
      (map (\<lambda>c. ?k + r * shape_cols a + c) [0..<shape_cols a])"
    unfolding loaded_facts(3) [OF assms r]
    using map_add_upt [of "?k + r * shape_cols a" "shape_cols a"]
    by (simp add: ac_simps)
  also have "\<dots> = map (new_cell s' r) [0..<shape_cols a]"
    using loaded_facts(6) [OF assms r] by simp
  finally show "layout s' ! r =
      map (\<lambda>r. map (new_cell s' r) [0..<shape_cols a]) [0..<shape_rows a] ! r"
    using r by simp
qed

lemma load_cells_succeeds:
  assumes "matrix_fits_shape s"
    and "normalize_shape (array a) = Inr [e0, e1]"
    and "normalize_cell_spacing (cells_spacing a) = Inr sp"
    and "py_sub_1 e0 = Inr lr" and "py_sub_1 e1 = Inr lc"
    and "py_range e0 = Inr n" and "0 < n \<longrightarrow> py_range e1 = Inr m"
  shows "fst (load_cells a s) = None"
proof -
  let ?sd = "destroy_list (concat (cells_matrix s)) s"
  let ?p = "(set_cell_style a ?sd)\<lparr>grid_shape := Some [e0, e1], cell_spacing := sp,
            last_row_index := lr, last_column_index := lc, cells_matrix := []\<rparr>"
  have prep: "prepare a ?sd = (None, ?p)"
    using assms(2-5)
    by (simp add: prepare_def and_then_def set_grid_shape_def set_cell_spacing_def
        set_last_indices_def shape_item_def list_item_def set_cell_style_def)
  have items: "shape_item ?p 0 = Inr e0" "shape_item ?p 1 = Inr e1"
    by (simp_all add: shape_item_def list_item_def)
  have "fst (build_rows [0..<n] ?p) = None"
  proof (cases "0 < n")
    case True
    with assms(7) have "py_range e1 = Inr m" by simp
    from build_rows_form [OF items(2) this, of 0 n] show ?thesis by simp
  next
    case False
    then show ?thesis by simp
  qed
  then have "fst (build_cells ?p) = None"
    using items(1) assms(6) by (simp add: build_cells_def)
  then show ?thesis
    unfolding load_cells_stages destroy_all_cells_fit [OF assms(1)]
    by (simp add: and_then_def prep)
qed

lemma reloaded_handles_fresh:
  assumes "load_cells a1 s = (None, s1)" and "load_cells a2 s1 = (None, s2)"
  shows "set (concat (cells_matrix s2)) \<inter> set (concat (cells_matrix s1)) = {}"
    and "snd (destroy_all_cells s1) = destroy_list (concat (cells_matrix s1)) s1"
proof -
  have fits: "matrix_fits_shape s1" by (rule loaded_facts(8) [OF assms(1)])
  show sd: "snd (destroy_all_cells s1) = destroy_list (concat (cells_matrix s1)) s1"
    by (simp add: destroy_all_cells_fit [OF fits])
  have old_lt: "h < length (widgets s1)" if "h \<in> set (concat (cells_matrix s1))" for h
    using loaded_alive(2) [OF assms(1) that] .
  have new_ge: "length (widgets s1) \<le> h" if "h \<in> set (concat (cells_matrix s2))" for h
    using loaded_alive(3) [OF assms(2) that] by (simp add: sd)
  show "set (concat (cells_matrix s2)) \<inter> set (concat (cells_matrix s1)) = {}"
    using old_lt new_ge by fastforce
qed

section \<open>A load that fails\<close>

lemma shape_error_state:
  assumes "matrix_fits_shape s"
    and "normalize_shape (array a) = Inr gs" and "length gs \<noteq> 2"
  shows "load_cells a s =
     (Some (ValueError shape_msg),
      (destroy_list (concat (cells_matrix s)) s)\<lparr>grid_shape := Some gs\<rparr>)"
  using assms(2,3)
  unfolding load_cells_def destroy_all_cells_fit [OF assms(1)]
  by (simp add: and_then_def set_grid_shape_def)

lemma destroy_cols_overrun:
  assumes "row < length (cells_matrix s)"
    and "\<exists>col \<in> set cols. length (cells_matrix s ! row) \<le> col"
  shows "fst (destroy_cols row cols s) = Some (IndexError [Text ''list index out of range''])"
  using assms
proof (induction cols arbitrary: s)
  case Nil
  then show ?case by simp
next
  case (Cons col cols)
  show ?case
  proof (cases "col < length (cells_matrix s ! row)")
    case True
    with Cons.prems(2) have "\<exists>col \<in> set cols. length (cells_matrix s ! row) \<le> col"
      by auto
    then have "fst (destroy_cols row cols (destroy_widget (cells_matrix s ! row ! col) s))
        = Some (IndexError [Text ''list index out of range''])"
      using Cons.prems(1) by (intro Cons.IH) simp_all
    then show ?thesis
      using True Cons.prems(1) by (simp add: list_item_def)
  next
    case False
    then show ?thesis
      using Cons.prems(1) by (simp add: list_item_def)
  qed
qed

lemma destroy_all_cells_overrun:
  assumes "cells_matrix s \<noteq> []"
    and "grid_shape s = Some (PInt r # PInt c # rest)"
    and "0 < r" and "int (length (cells_matrix s ! 0)) < c"
  shows "fst (destroy_all_cells s) = Some (IndexError [Text ''list index out of range''])"
proof -
  have items: "shape_item s 0 = Inr (PInt r)" "shape_item s 1 = Inr (PInt c)"
    using assms(2) by (simp_all add: shape_item_def list_item_def)
  from assms(3) have rows: "[0..<nat r] = 0 # [1..<nat r]"
    by (simp add: upt_conv_Cons)
  have "length (cells_matrix s ! 0) \<in> set [0..<nat c]"
    using assms(4) by simp
  then have "\<exists>col \<in> set [0..<nat c]. length (cells_matrix s ! 0) \<le> col"
    by blast
  with assms(1) have "fst (destroy_cols 0 [0..<nat c] s)
      = Some (IndexError [Text ''list index out of range''])"
    by (intro destroy_cols_overrun) simp_all
  then have "fst (destroy_rows [0..<nat r] s) = Some (IndexError [Text ''list index out of range''])"
    unfolding rows using items(2)
    by (cases "destroy_cols 0 [0..<nat c] s") (simp add: and_then_def)
  then show ?thesis
    using assms(1) items(1) by (simp add: destroy_all_cells_def)
qed

lemma load_cells_destroy_error:
  assumes "fst (destroy_all_cells s) = Some e"
  shows "fst (load_cells a s) = Some e"
  using assms unfolding load_cells_def
  by (cases "destroy_all_cells s") (simp add: and_then_def)

lemma snd_grid_shape_upd: "grid_shape (snd (e, s\<lparr>grid_shape := g\<rparr>)) = g"
  by simp

section \<open>From a state whose matrix fits its shape\<close>

lemma range_count_int [simp]: "range_count (PInt n) = nat n"
  by (simp add: range_count_def)

lemma load_cells_from_fitting_state:
  assumes "matrix_fits_shape s"
    and "normalize_cell_spacing (cells_spacing a) = Inr sp"
  shows "array a = PInt n \<Longrightarrow>
           \<exists>s'. load_cells a s = (None, s') \<and> length (get_cells_grid s') = nat n
              \<and> (\<forall>cells \<in> set (get_cells_grid s'). length cells = nat n)"
    and "array a = PTuple [PInt r, PInt c] \<or> array a = PList [PInt r, PInt c] \<Longrightarrow>
           \<exists>s'. load_cells a s = (None, s') \<and> length (get_cells_grid s') = nat r
              \<and> (\<forall>cells \<in> set (get_cells_grid s'). length cells = nat c)"
    and "normalize_shape (array a) = Inr gs \<Longrightarrow> length gs \<noteq> 2 \<Longrightarrow>
           fst (load_cells a s) = Some (ValueError shape_msg)"
proof -
  have build: "\<exists>s'. load_cells a s = (None, s') \<and> length (get_cells_grid s') = nat r
      \<and> (\<forall>cells \<in> set (get_cells_grid s'). length cells = nat c)"
    if "normalize_shape (array a) = Inr [PInt r, PInt c]" for r c
  proof -
    have "fst (load_cells a s) = None"
      using assms(1) that assms(2)
      by (rule load_cells_succeeds [where n = "nat r" and m = "nat c"]) simp_all
    then obtain s' where ok: "load_cells a s = (None, s')"
      by (cases "load_cells a s") simp
    have "shape_rows a = nat r" "shape_cols a = nat c"
      using that by (simp_all add: shape_rows_def shape_cols_def)
    then show ?thesis
      using ok loaded_facts(2) [OF ok] loaded_row_lengths [OF ok]
      by (intro exI [of _ s']) (simp add: get_cells_grid_def)
  qed
  show "array a = PInt n \<Longrightarrow>
           \<exists>s'. load_cells a s = (None, s') \<and> length (get_cells_grid s') = nat n
              \<and> (\<forall>cells \<in> set (get_cells_grid s'). length cells = nat n)"
    by (rule build) simp
  show "array a = PTuple [PInt r, PInt c] \<or> array a = PList [PInt r, PInt c] \<Longrightarrow>
           \<exists>s'. load_cells a s = (None, s') \<and> length (get_cells_grid s') = nat r
              \<and> (\<forall>cells \<in> set (get_cells_grid s'). length cells = nat c)"
    by (rule build) auto
  show "normalize_shape (array a) = Inr gs \<Longrightarrow> length gs \<noteq> 2 \<Longrightarrow>
           fst (load_cells a s) = Some (ValueError shape_msg)"
    using shape_error_state [OF assms(1)] by simp
qed

lemma default_grid_fits: "matrix_fits_shape default_grid"
  by (simp add: matrix_fits_shape_def default_grid_def initial_grid_def)

lemma default_grid_init: "cells_grid_init (PInt 0) (PInt 0) = Inr default_grid"
  by (simp add: cells_grid_init_def default_grid_def normalize_box_spacing_def)

section \<open>The claims about the matrix\<close>

text \<open>
  Claim C2. After every successful \<^verbatim>\<open>load_cells\<close>, with the cell spacing normalized to
  the half gaps \<open>(l, t, r, b)\<close>, the matrix has the rows and columns of the shape, and
  the cell at \<open>(row, col)\<close> is placed at that row and column with left margin \<open>l\<close>
  unless \<open>col = 0\<close>, right margin \<open>r\<close> unless \<open>col\<close> is the last column, top margin
  \<open>t\<close> unless \<open>row = 0\<close>, and bottom margin \<open>b\<close> unless \<open>row\<close> is the last row; the
  margin is 0 otherwise.
\<close>

theorem load_cells_margins:
  assumes "load_cells a s = (None, s')"
    and "normalize_cell_spacing (cells_spacing a) = Inr (l, t, r, b)"
    and "row < shape_rows a" and "col < shape_cols a"
  shows "length (get_cells_grid s') = shape_rows a
       \<and> length (get_cells_grid s' ! row) = shape_cols a
       \<and> w_row (widgets s' ! (get_cells_grid s' ! row ! col)) = row
       \<and> w_column (widgets s' ! (get_cells_grid s' ! row ! col)) = col
       \<and> w_padx (widgets s' ! (get_cells_grid s' ! row ! col)) =
           (if col \<noteq> 0 then l else 0, if col \<noteq> shape_cols a - 1 then r else 0)
       \<and> w_pady (widgets s' ! (get_cells_grid s' ! row ! col)) =
           (if row \<noteq> 0 then t else 0, if row \<noteq> shape_rows a - 1 then b else 0)"
proof -
  note len = loaded_facts(2) [OF assms(1)]
    and rows = loaded_facts(3) [OF assms(1) assms(3)]
    and cell = loaded_facts(6) [OF assms(1) assms(3) assms(4)]
  from loaded_style(1) [OF assms(1)] obtain e0 e1 where
    l: "py_sub_1 e0 = Inr (last_row_index s')" "py_sub_1 e1 = Inr (last_column_index s')"
    and r0: "py_range e0 = Inr (shape_rows a)"
    and r1: "0 < shape_rows a \<longrightarrow> py_range e1 = Inr (shape_cols a)"
    by (elim exE conjE)
  have h: "get_cells_grid s' ! row ! col =
      length (widgets (snd (destroy_all_cells s))) + row * shape_cols a + col"
    using rows assms(4) by (simp add: get_cells_grid_def)
  have w: "widgets s' ! (get_cells_grid s' ! row ! col) = new_cell s' row col"
    unfolding h by (rule cell)
  have last_row: "index_ne row (last_row_index s') = (row \<noteq> shape_rows a - 1)"
    using r0 l(1) assms(3) by (rule index_ne_last)
  have "py_range e1 = Inr (shape_cols a)" using r1 assms(3) by simp
  then have last_col: "index_ne col (last_column_index s') = (col \<noteq> shape_cols a - 1)"
    using l(2) assms(4) by (rule index_ne_last)
  have spacing: "cell_spacing s' = (l, t, r, b)"
    using loaded_style(2) [OF assms(1)] assms(2) by simp
  show ?thesis
    unfolding w using len rows
    by (simp add: get_cells_grid_def new_cell_def spacing last_row last_col)
qed

text \<open>
  The instance of the claim: after \<^verbatim>\<open>load_cells(array=2, cells_spacing=10)\<close> on a new
  container, cell \<open>(0, 0)\<close> has margins 0 left and top, 5 right and bottom, and cell
  \<open>(1, 1)\<close> has 5 left and top, 0 right and bottom.
\<close>

theorem load_cells_margins_witness:
  "load_cells (default_args\<lparr>array := PInt 2, cells_spacing := PInt 10\<rparr>) default_grid
     = (None, snd (load_cells (default_args\<lparr>array := PInt 2, cells_spacing := PInt 10\<rparr>)
                     default_grid))
 \<and> normalize_cell_spacing (PInt 10) = Inr (5, 5, 5, 5)
 \<and> shape_rows (default_args\<lparr>array := PInt 2, cells_spacing := PInt 10\<rparr>) = 2
 \<and> shape_cols (default_args\<lparr>array := PInt 2, cells_spacing := PInt 10\<rparr>) = 2
 \<and> (let s' = snd (load_cells (default_args\<lparr>array := PInt 2, cells_spacing := PInt 10\<rparr>)
                     default_grid)
    in w_padx (widgets s' ! (get_cells_grid s' ! 0 ! 0)) = (0, 5)
     \<and> w_pady (widgets s' ! (get_cells_grid s' ! 0 ! 0)) = (0, 5)
     \<and> w_padx (widgets s' ! (get_cells_grid s' ! 1 ! 1)) = (5, 0)
     \<and> w_pady (widgets s' ! (get_cells_grid s' ! 1 ! 1)) = (5, 0))"
proof -
  let ?a = "default_args\<lparr>array := PInt 2, cells_spacing := PInt 10\<rparr>"
  have ok: "load_cells ?a default_grid = (None, snd (load_cells ?a default_grid))"
    by code_simp
  have sp: "normalize_cell_spacing (cells_spacing ?a) = Inr (5, 5, 5, 5)"
    by code_simp
  have n: "shape_rows ?a = 2" and m: "shape_cols ?a = 2"
    by code_simp+
  show ?thesis
    using load_cells_margins [OF ok sp, of 0 0] load_cells_margins [OF ok sp, of 1 1]
      ok sp n m
    by (simp add: Let_def)
qed

text \<open>
  Claim C5, at the input where the code breaks it. A new container is loaded with
  \<^verbatim>\<open>array=2\<close>; \<^verbatim>\<open>load_cells(array=(5, 5, 5))\<close> then fails with the shape error, and
  leaves \<^verbatim>\<open>grid_shape = (5, 5, 5)\<close> beside the 2 by 2 matrix. From there
  \<^verbatim>\<open>load_cells(array=3)\<close> and \<^verbatim>\<open>load_cells(array=(2, 5))\<close> build nothing and
  \<^verbatim>\<open>load_cells(array=(1, 2, 3))\<close> does not reach the shape check: each raises
  \<^verbatim>\<open>IndexError\<close> in the destruction loop, and the matrix stays the old one.
\<close>

theorem load_cells_after_rejected_shape:
  "fst (load_cells (with_array (PInt 2)) default_grid) = None
 \<and> fst (load_cells (with_array (PTuple [PInt 5, PInt 5, PInt 5]))
          (snd (load_cells (with_array (PInt 2)) default_grid)))
     = Some (ValueError shape_msg)
 \<and> fst (load_cells (with_array (PInt 3))
          (snd (load_cells (with_array (PTuple [PInt 5, PInt 5, PInt 5]))
             (snd (load_cells (with_array (PInt 2)) default_grid)))))
     = Some (IndexError [Text ''list index out of range''])
 \<and> get_cells_grid (snd (load_cells (with_array (PInt 3))
          (snd (load_cells (with_array (PTuple [PInt 5, PInt 5, PInt 5]))
             (snd (load_cells (with_array (PInt 2)) default_grid))))))
     = [[0, 1], [2, 3]]
 \<and> fst (load_cells (with_array (PTuple [PInt 2, PInt 5]))
          (snd (load_cells (with_array (PTuple [PInt 5, PInt 5, PInt 5]))
             (snd (load_cells (with_array (PInt 2)) default_grid)))))
     = Some (IndexError [Text ''list index out of range''])
 \<and> fst (load_cells (with_array (PTuple [PInt 1, PInt 2, PInt 3]))
          (snd (load_cells (with_array (PTuple [PInt 5, PInt 5, PInt 5]))
             (snd (load_cells (with_array (PInt 2)) default_grid)))))
     = Some (IndexError [Text ''list index out of range''])"
  by code_simp

text \<open>
  Claim C7. When a successful \<^verbatim>\<open>load_cells\<close> is followed by another successful one,
  the matrix afterwards has exactly the rows and columns of the second shape, its cells
  are distinct and none of them is a cell of the first matrix; every cell of the first
  matrix, alive before the second call, is destroyed after it, and the new cells are
  not; and the toolkit saw, during the second call, first the destruction of every cell
  of the first matrix and then the creations of the cells of the second.
\<close>

theorem load_cells_twice:
  assumes "load_cells a1 s = (None, s1)" and "load_cells a2 s1 = (None, s2)"
  shows "length (get_cells_grid s2) = shape_rows a2
       \<and> (\<forall>cells \<in> set (get_cells_grid s2). length cells = shape_cols a2)
       \<and> length (concat (get_cells_grid s2)) = shape_rows a2 * shape_cols a2
       \<and> distinct (concat (get_cells_grid s2))
       \<and> set (concat (get_cells_grid s2)) \<inter> set (concat (get_cells_grid s1)) = {}
       \<and> (\<forall>h \<in> set (concat (get_cells_grid s1)).
             \<not> w_destroyed (widgets s1 ! h) \<and> w_destroyed (widgets s2 ! h))
       \<and> (\<forall>h \<in> set (concat (get_cells_grid s2)). \<not> w_destroyed (widgets s2 ! h))
       \<and> trace s2 = trace s1 @ map Destroyed (concat (get_cells_grid s1))
                             @ map Created (concat (get_cells_grid s2))"
proof -
  let ?old = "concat (cells_matrix s1)"
  let ?sd = "destroy_list ?old s1"
  note sd = reloaded_handles_fresh(2) [OF assms]
    and disj = reloaded_handles_fresh(1) [OF assms]
  note cc = loaded_facts(4) [OF assms(2), unfolded sd, simplified]
    and ws = loaded_facts(5) [OF assms(2), unfolded sd]
    and tr = loaded_facts(7) [OF assms(2), unfolded sd, simplified]
  have old_lt: "h < length (widgets s1)" if "h \<in> set ?old" for h
    using loaded_alive(2) [OF assms(1) that] .
  have old_destroyed: "w_destroyed (widgets s2 ! h)" if "h \<in> set ?old" for h
  proof -
    have "widgets s2 ! h = widgets ?sd ! h"
      using old_lt [OF that] by (subst ws) (simp add: nth_append)
    then show ?thesis
      using destroy_list_destroyed [of h s1 ?old] old_lt [OF that] that by simp
  qed
  show ?thesis
    unfolding get_cells_grid_def
    using loaded_facts(2) [OF assms(2)] loaded_row_lengths [OF assms(2)]
      disj old_destroyed loaded_alive(1) [OF assms(1)] loaded_alive(1) [OF assms(2)] tr
    by (simp add: cc)
qed

theorem load_cells_twice_witness:
  "load_cells (with_array (PInt 2)) default_grid
     = (None, snd (load_cells (with_array (PInt 2)) default_grid))
 \<and> load_cells (with_array (PTuple [PInt 1, PInt 3]))
       (snd (load_cells (with_array (PInt 2)) default_grid))
     = (None, snd (load_cells (with_array (PTuple [PInt 1, PInt 3]))
                (snd (load_cells (with_array (PInt 2)) default_grid))))
 \<and> get_cells_grid (snd (load_cells (with_array (PInt 2)) default_grid)) = [[0, 1], [2, 3]]
 \<and> get_cells_grid (snd (load_cells (with_array (PTuple [PInt 1, PInt 3]))
                (snd (load_cells (with_array (PInt 2)) default_grid)))) = [[4, 5, 6]]
 \<and> trace (snd (load_cells (with_array (PTuple [PInt 1, PInt 3]))
                (snd (load_cells (with_array (PInt 2)) default_grid))))
     = [Created 0, Created 1, Created 2, Created 3,
        Destroyed 0, Destroyed 1, Destroyed 2, Destroyed 3,
        Created 4, Created 5, Created 6]"
proof -
  let ?s1 = "snd (load_cells (with_array (PInt 2)) default_grid)"
  let ?s2 = "snd (load_cells (with_array (PTuple [PInt 1, PInt 3])) ?s1)"
  have one: "load_cells (with_array (PInt 2)) default_grid = (None, ?s1)"
    by code_simp
  have two: "load_cells (with_array (PTuple [PInt 1, PInt 3])) ?s1 = (None, ?s2)"
    by code_simp
  have m1: "get_cells_grid ?s1 = [[0, 1], [2, 3]]" by code_simp
  have m2: "get_cells_grid ?s2 = [[4, 5, 6]]" by code_simp
  have t1: "trace ?s1 = [Created 0, Created 1, Created 2, Created 3]" by code_simp
  from load_cells_twice [OF one two]
  have "trace ?s2 = trace ?s1 @ map Destroyed (concat (get_cells_grid ?s1))
      @ map Created (concat (get_cells_grid ?s2))"
    by (elim conjE)
  then have "trace ?s2 = [Created 0, Created 1, Created 2, Created 3,
        Destroyed 0, Destroyed 1, Destroyed 2, Destroyed 3,
        Created 4, Created 5, Created 6]"
    unfolding m1 m2 t1 by simp
  with one two m1 m2 show ?thesis by (intro conjI)
qed

text \<open>
  Claim C8. After a successful \<^verbatim>\<open>load_cells\<close>, the same call again succeeds, and gives
  a matrix with the same row lengths, the same frames (styling, position and margins of
  every cell), the same shape, spacing and styling attributes, made of new cells.
\<close>

theorem load_cells_repeated:
  assumes "load_cells a s = (None, s1)"
  shows "\<exists>s2. load_cells a s1 = (None, s2)
       \<and> map length (get_cells_grid s2) = map length (get_cells_grid s1)
       \<and> layout s2 = layout s1
       \<and> grid_shape s2 = grid_shape s1
       \<and> cell_spacing s2 = cell_spacing s1
       \<and> cell_border_color s2 = cell_border_color s1
       \<and> cell_border_width s2 = cell_border_width s1
       \<and> cell_corner_radius s2 = cell_corner_radius s1
       \<and> cell_fg_color s2 = cell_fg_color s1
       \<and> cell_height s2 = cell_height s1
       \<and> cell_width s2 = cell_width s1
       \<and> set (concat (get_cells_grid s2)) \<inter> set (concat (get_cells_grid s1)) = {}"
proof -
  from loaded_style(1) [OF assms] obtain e0 e1 where
    e: "normalize_shape (array a) = Inr [e0, e1]"
    and gs1: "grid_shape s1 = Some [e0, e1]"
    and l: "py_sub_1 e0 = Inr (last_row_index s1)" "py_sub_1 e1 = Inr (last_column_index s1)"
    and r0: "py_range e0 = Inr (shape_rows a)"
    and r1: "0 < shape_rows a \<longrightarrow> py_range e1 = Inr (shape_cols a)"
    by (elim exE conjE)
  have "fst (load_cells a s1) = None"
    using loaded_facts(8) [OF assms] e loaded_style(2) [OF assms] l r0 r1
    by (rule load_cells_succeeds)
  then obtain s2 where two: "load_cells a s1 = (None, s2)"
    by (cases "load_cells a s1") simp
  from loaded_style(1) [OF two] e have gs2: "grid_shape s2 = Some [e0, e1]"
    and l2: "py_sub_1 e0 = Inr (last_row_index s2)" "py_sub_1 e1 = Inr (last_column_index s2)"
    by auto
  have sp: "cell_spacing s2 = cell_spacing s1"
    using loaded_style(2) [OF assms] loaded_style(2) [OF two] by simp
  have style: "cell_border_color s2 = cell_border_color s1"
    "cell_border_width s2 = cell_border_width s1"
    "cell_corner_radius s2 = cell_corner_radius s1"
    "cell_fg_color s2 = cell_fg_color s1"
    "cell_height s2 = cell_height s1"
    "cell_width s2 = cell_width s1"
    using loaded_style(3-8) [OF assms] loaded_style(3-8) [OF two] by simp_all
  have last: "last_row_index s2 = last_row_index s1" "last_column_index s2 = last_column_index s1"
    using l l2 by simp_all
  have nc: "new_cell s2 = new_cell s1"
    by (simp add: new_cell_def fun_eq_iff sp style last)
  have lay: "layout s2 = layout s1"
    unfolding loaded_layout [OF assms] loaded_layout [OF two] nc ..
  have lens: "map length (cells_matrix s2) = map length (cells_matrix s1)"
  proof -
    have "map length (cells_matrix s') = replicate (shape_rows a) (shape_cols a)"
      if "load_cells a s0 = (None, s')" for s0 s'
    proof (rule replicate_eqI)
      show "length (map length (cells_matrix s')) = shape_rows a"
        using loaded_facts(2) [OF that] by simp
      show "y = shape_cols a" if "y \<in> set (map length (cells_matrix s'))" for y
        using that loaded_row_lengths [OF \<open>load_cells a s0 = (None, s')\<close>] by auto
    qed
    from this [OF assms] this [OF two] show ?thesis by simp
  qed
  have disj: "set (concat (get_cells_grid s2)) \<inter> set (concat (get_cells_grid s1)) = {}"
    unfolding get_cells_grid_def by (rule reloaded_handles_fresh(1) [OF assms two])
  show ?thesis
    using two lens lay gs1 gs2 sp style disj
    by (intro exI [of _ s2]) (simp add: get_cells_grid_def)
qed

theorem load_cells_repeated_witness:
  "load_cells (with_array (PInt 2)) default_grid
     = (None, snd (load_cells (with_array (PInt 2)) default_grid))
 \<and> (\<exists>s2. load_cells (with_array (PInt 2)) (snd (load_cells (with_array (PInt 2)) default_grid))
            = (None, s2)
        \<and> get_cells_grid s2 = [[4, 5], [6, 7]]
        \<and> layout s2 = layout (snd (load_cells (with_array (PInt 2)) default_grid)))
 \<and> get_cells_grid (snd (load_cells (with_array (PInt 2)) default_grid)) = [[0, 1], [2, 3]]"
proof -
  let ?s1 = "snd (load_cells (with_array (PInt 2)) default_grid)"
  have one: "load_cells (with_array (PInt 2)) default_grid = (None, ?s1)"
    by code_simp
  have m1: "get_cells_grid ?s1 = [[0, 1], [2, 3]]" by code_simp
  have m2: "get_cells_grid (snd (load_cells (with_array (PInt 2)) ?s1)) = [[4, 5], [6, 7]]"
    by code_simp
  from load_cells_repeated [OF one] obtain s2 where
    two: "load_cells (with_array (PInt 2)) ?s1 = (None, s2)"
    and lay: "layout s2 = layout ?s1"
    by (elim exE conjE)
  from two m2 have "get_cells_grid s2 = [[4, 5], [6, 7]]" by simp
  with two lay have "\<exists>s2. load_cells (with_array (PInt 2)) ?s1 = (None, s2)
        \<and> get_cells_grid s2 = [[4, 5], [6, 7]] \<and> layout s2 = layout ?s1"
    by (intro exI [of _ s2] conjI)
  with one m1 show ?thesis by (intro conjI)
qed

text \<open>
  Claim C1 as stated fails: \<^verbatim>\<open>load_cells(array=(1, 2, 3))\<close> after
  \<^verbatim>\<open>load_cells(array=2)\<close> raises the shape error, and the cell at \<open>(0, 0)\<close> of the
  matrix built before, alive until then, has been destroyed by that call, with the other
  three.
\<close>

theorem shape_error_destroys_counterexample:
  "load_cells (with_array (PInt 2)) default_grid
     = (None, snd (load_cells (with_array (PInt 2)) default_grid))
 \<and> fst (load_cells (with_array (PTuple [PInt 1, PInt 2, PInt 3]))
          (snd (load_cells (with_array (PInt 2)) default_grid)))
     = Some (ValueError shape_msg)
 \<and> get_cells_grid (snd (load_cells (with_array (PInt 2)) default_grid)) ! 0 ! 0 = 0
 \<and> \<not> w_destroyed (widgets (snd (load_cells (with_array (PInt 2)) default_grid)) ! 0)
 \<and> w_destroyed (widgets (snd (load_cells (with_array (PTuple [PInt 1, PInt 2, PInt 3]))
          (snd (load_cells (with_array (PInt 2)) default_grid)))) ! 0)
 \<and> trace (snd (load_cells (with_array (PTuple [PInt 1, PInt 2, PInt 3]))
          (snd (load_cells (with_array (PInt 2)) default_grid))))
     = [Created 0, Created 1, Created 2, Created 3,
        Destroyed 0, Destroyed 1, Destroyed 2, Destroyed 3]"
  by code_simp

text \<open>
  Claim C1, as amended. When \<^verbatim>\<open>load_cells\<close> is called after a successful load with a
  shape that does not normalize to two values, it raises the shape error whatever the
  spacing argument is; the list that \<^verbatim>\<open>get_cells_grid\<close> returns is unchanged, no cell is
  created, and the normalized spacing is the old one; but every cell of the matrix
  built before has been destroyed, destruction being the first step of the call, and
  \<^verbatim>\<open>grid_shape\<close> holds the rejected shape.
\<close>

theorem shape_error_effect:
  assumes "load_cells a0 s0 = (None, s)"
    and "normalize_shape (array a) = Inr gs" and "length gs \<noteq> 2"
  shows "load_cells a s =
           (Some (ValueError shape_msg),
            (destroy_list (concat (get_cells_grid s)) s)\<lparr>grid_shape := Some gs\<rparr>)
       \<and> get_cells_grid (snd (load_cells a s)) = get_cells_grid s
       \<and> length (widgets (snd (load_cells a s))) = length (widgets s)
       \<and> trace (snd (load_cells a s)) = trace s @ map Destroyed (concat (get_cells_grid s))
       \<and> (\<forall>h \<in> set (concat (get_cells_grid s)).
             \<not> w_destroyed (widgets s ! h) \<and> w_destroyed (widgets (snd (load_cells a s)) ! h))
       \<and> cell_spacing (snd (load_cells a s)) = cell_spacing s"
proof -
  have fits: "matrix_fits_shape s" by (rule loaded_facts(8) [OF assms(1)])
  note st = shape_error_state [OF fits assms(2,3)]
  have "w_destroyed (widgets (destroy_list (concat (cells_matrix s)) s) ! h)"
    if "h \<in> set (concat (cells_matrix s))" for h
    using loaded_alive(2) [OF assms(1) that] that by (intro destroy_list_destroyed) simp_all
  then show ?thesis
    using loaded_alive(1) [OF assms(1)] by (simp add: st get_cells_grid_def)
qed

theorem shape_error_effect_witness:
  "load_cells (with_array (PInt 2)) default_grid
     = (None, snd (load_cells (with_array (PInt 2)) default_grid))
 \<and> normalize_shape (array (with_array (PTuple [PInt 1, PInt 2, PInt 3])))
     = Inr [PInt 1, PInt 2, PInt 3]
 \<and> length [PInt 1, PInt 2, PInt 3] \<noteq> 2
 \<and> fst (load_cells (with_array (PTuple [PInt 1, PInt 2, PInt 3]))
          (snd (load_cells (with_array (PInt 2)) default_grid)))
     = Some (ValueError shape_msg)
 \<and> get_cells_grid (snd (load_cells (with_array (PTuple [PInt 1, PInt 2, PInt 3]))
          (snd (load_cells (with_array (PInt 2)) default_grid))))
     = [[0, 1], [2, 3]]
 \<and> grid_shape (snd (load_cells (with_array (PTuple [PInt 1, PInt 2, PInt 3]))
          (snd (load_cells (with_array (PInt 2)) default_grid))))
     = Some [PInt 1, PInt 2, PInt 3]"
proof -
  let ?s1 = "snd (load_cells (with_array (PInt 2)) default_grid)"
  let ?a = "with_array (PTuple [PInt 1, PInt 2, PInt 3])"
  have one: "load_cells (with_array (PInt 2)) default_grid = (None, ?s1)"
    by code_simp
  have sh: "normalize_shape (array ?a) = Inr [PInt 1, PInt 2, PInt 3]"
    by code_simp
  have len: "length [PInt 1, PInt 2, PInt 3] \<noteq> 2" by simp
  have m1: "get_cells_grid ?s1 = [[0, 1], [2, 3]]" by code_simp
  note eff = shape_error_effect [OF one sh len]
  have r: "load_cells ?a ?s1 =
      (Some (ValueError shape_msg),
       (destroy_list (concat (get_cells_grid ?s1)) ?s1)\<lparr>grid_shape := Some [PInt 1, PInt 2, PInt 3]\<rparr>)"
    using eff by (rule conjunct1)
  have m: "get_cells_grid (snd (load_cells ?a ?s1)) = get_cells_grid ?s1"
    using eff by (elim conjE)
  have e: "fst (load_cells ?a ?s1) = Some (ValueError shape_msg)"
    by (subst r) (rule fst_conv)
  have g: "grid_shape (snd (load_cells ?a ?s1)) = Some [PInt 1, PInt 2, PInt 3]"
    by (subst r) (rule snd_grid_shape_upd)
  have m': "get_cells_grid (snd (load_cells ?a ?s1)) = [[0, 1], [2, 3]]"
    using m m1 by (rule trans)
  from one sh len e m' g show ?thesis by (intro conjI)
qed

text \<open>
  Claim C9. The destruction loop takes its ranges from \<^verbatim>\<open>grid_shape\<close>. After a
  successful load of a non-empty matrix, a \<^verbatim>\<open>load_cells\<close> whose shape has more than two
  values, the first two of them integers above the rows and the columns of the matrix,
  fails with the shape error, stores that shape and keeps the matrix; any
  \<^verbatim>\<open>load_cells\<close> after it raises \<^verbatim>\<open>IndexError\<close>.
\<close>

theorem stale_shape_index_error:
  assumes "load_cells a1 s = (None, s1)" and "0 < shape_rows a1"
    and "normalize_shape (array a2) = Inr (PInt r # PInt c # e # rest)"
    and "int (shape_rows a1) < r" and "int (shape_cols a1) < c"
  shows "fst (load_cells a2 s1) = Some (ValueError shape_msg)
       \<and> grid_shape (snd (load_cells a2 s1)) = Some (PInt r # PInt c # e # rest)
       \<and> get_cells_grid (snd (load_cells a2 s1)) = get_cells_grid s1
       \<and> fst (load_cells a3 (snd (load_cells a2 s1)))
           = Some (IndexError [Text ''list index out of range''])"
proof -
  have fits: "matrix_fits_shape s1" by (rule loaded_facts(8) [OF assms(1)])
  let ?s2 = "(destroy_list (concat (cells_matrix s1)) s1)
      \<lparr>grid_shape := Some (PInt r # PInt c # e # rest)\<rparr>"
  have st: "load_cells a2 s1 = (Some (ValueError shape_msg), ?s2)"
    using fits assms(3) by (rule shape_error_state) simp
  have ne: "cells_matrix ?s2 \<noteq> []"
    using loaded_facts(2) [OF assms(1)] assms(2) by auto
  have row0: "length (cells_matrix ?s2 ! 0) = shape_cols a1"
    using loaded_facts(3) [OF assms(1) assms(2)] by simp
  have "fst (destroy_all_cells ?s2) = Some (IndexError [Text ''list index out of range''])"
    using ne
  proof (rule destroy_all_cells_overrun)
    show "grid_shape ?s2 = Some (PInt r # PInt c # e # rest)" by simp
    show "0 < r" using assms(4) by simp
    show "int (length (cells_matrix ?s2 ! 0)) < c" using assms(5) row0 by simp
  qed
  then have "fst (load_cells a3 ?s2) = Some (IndexError [Text ''list index out of range''])"
    by (rule load_cells_destroy_error)
  then show ?thesis
    by (simp add: st get_cells_grid_def)
qed

theorem stale_shape_index_error_witness:
  "load_cells (with_array (PInt 2)) default_grid
     = (None, snd (load_cells (with_array (PInt 2)) default_grid))
 \<and> 0 < shape_rows (with_array (PInt 2))
 \<and> normalize_shape (array (with_array (PTuple [PInt 5, PInt 5, PInt 5])))
     = Inr [PInt 5, PInt 5, PInt 5]
 \<and> int (shape_rows (with_array (PInt 2))) < 5
 \<and> int (shape_cols (with_array (PInt 2))) < 5
 \<and> fst (load_cells (with_array (PTuple [PInt 5, PInt 5, PInt 5]))
          (snd (load_cells (with_array (PInt 2)) default_grid)))
     = Some (ValueError shape_msg)
 \<and> fst (load_cells (with_array (PInt 3))
          (snd (load_cells (with_array (PTuple [PInt 5, PInt 5, PInt 5]))
             (snd (load_cells (with_array (PInt 2)) default_grid)))))
     = Some (IndexError [Text ''list index out of range''])"
proof -
  let ?s1 = "snd (load_cells (with_array (PInt 2)) default_grid)"
  let ?a = "with_array (PTuple [PInt 5, PInt 5, PInt 5])"
  have one: "load_cells (with_array (PInt 2)) default_grid = (None, ?s1)"
    by code_simp
  have n: "shape_rows (with_array (PInt 2)) = 2" and m: "shape_cols (with_array (PInt 2)) = 2"
    by code_simp+
  have sh: "normalize_shape (array ?a) = Inr [PInt 5, PInt 5, PInt 5]"
    by code_simp
  have "fst (load_cells ?a ?s1) = Some (ValueError shape_msg)
      \<and> fst (load_cells (with_array (PInt 3)) (snd (load_cells ?a ?s1)))
          = Some (IndexError [Text ''list index out of range''])"
    using stale_shape_index_error [OF one _ sh, of "with_array (PInt 3)"]
    by (simp add: n m)
  with one sh show ?thesis by (simp add: n m)
qed

end
